theory Spec2Isabelle
  imports Main
begin

section \<open>Conversation-history compaction: data model\<close>

text \<open>
  The development embeds \<^verbatim>\<open>summarizedConversationHistory.tsx\<close>. Objects are
  modelled by value: two positions of a round list hold two round objects. Optional
  properties are \<open>option\<close>s, exceptions are the \<open>Inl\<close> side of a sum.
\<close>

datatype error =
    NothingToSummarize  \<comment> \<open>\<^verbatim>\<open>new Error('Nothing to summarize')\<close>\<close>
  | SummarizationFailed \<comment> \<open>\<^verbatim>\<open>new Error('Summarization failed')\<close>\<close>
  | SummaryTooLarge     \<comment> \<open>\<^verbatim>\<open>new Error('Summary too large')\<close>\<close>
  | TypeError           \<comment> \<open>a property read on \<^verbatim>\<open>undefined\<close> or \<^verbatim>\<open>null\<close>\<close>
  | SyntaxError         \<comment> \<open>thrown by \<^verbatim>\<open>JSON.parse\<close>\<close>
  | BudgetExceededError
  | OtherError string

record IToolCall =
  name :: string
  arguments :: string

record IToolCallRound =
  roundId :: string  \<comment> \<open>the property \<^verbatim>\<open>id\<close>\<close>
  toolCalls :: "IToolCall list"
  summary :: "string option"

record IResultMetadata =
  maxToolCallsExceeded :: bool
  metaToolCallResults :: "(string \<rightharpoonup> string) option"

record Turn =
  rounds :: "IToolCallRound list"
  resultMetadata :: "IResultMetadata option"
  responseChatResultMetadata :: "IResultMetadata option"

record IBuildPromptContext =
  history :: "Turn list"
  toolCallRounds :: "IToolCallRound list option"
  toolCallResults :: "(string \<rightharpoonup> string) option"
  isContinuation :: bool
  conversationSessionId :: "string option"

record NotebookDocument =
  uri :: string  \<comment> \<open>the value of \<^verbatim>\<open>uri.toString()\<close>\<close>
  notebookType :: string

record SummarizedAgentHistoryProps =
  promptContext :: IBuildPromptContext
  endpointModel :: string
  workingNotebook :: "NotebookDocument option"

record ISummarizedConversationHistoryInfo =
  props :: SummarizedAgentHistoryProps
  summarizedToolCallRoundId :: string

text \<open>Values produced by \<^verbatim>\<open>JSON.parse\<close>.\<close>

datatype json =
    JNull
  | JBool bool
  | JNumber int
  | JString string
  | JArray "json list"
  | JObject "(string \<times> json) list"

text \<open>
  The collaborators of the props builder. \<^verbatim>\<open>JSON.parse\<close>, the path
  resolution service and the constant \<^verbatim>\<open>ToolName.RunNotebookCell\<close> are not part of
  the file under study and are parameters; the first two may throw.
\<close>

record services =
  JSON_parse :: "string \<Rightarrow> error + json"
  resolveFilePath :: "string \<Rightarrow> error + string option"
  notebookDocuments :: "NotebookDocument list"
  RunNotebookCell :: string

section \<open>JavaScript helpers\<close>

text \<open>Truthiness of an optional string: \<^verbatim>\<open>undefined\<close> and \<^verbatim>\<open>''\<close> are falsy.\<close>

fun truthy :: "string option \<Rightarrow> bool" where
  "truthy None = False"
| "truthy (Some s) = (s \<noteq> [])"

text \<open>\<^verbatim>\<open>xs.at(-1)\<close>: the last element, \<^verbatim>\<open>undefined\<close> on an empty array.\<close>

fun at_last :: "'a list \<Rightarrow> 'a option" where
  "at_last [] = None"
| "at_last xs = Some (last xs)"

text \<open>\<^verbatim>\<open>args.filePath\<close>: throws on \<^verbatim>\<open>null\<close>, is \<^verbatim>\<open>undefined\<close> on any
  other value that is not an object with that key.\<close>

fun get_filePath :: "json \<Rightarrow> error + json option" where
  "get_filePath JNull = Inl TypeError"
| "get_filePath (JObject kvs) = Inr (map_of kvs ''filePath'')"
| "get_filePath _ = Inr None"

section \<open>SummarizedConversationHistoryPropsBuilder\<close>

definition isRunNotebookCell :: "services \<Rightarrow> IToolCall \<Rightarrow> bool" where
  "isRunNotebookCell sv call = (name call = RunNotebookCell sv)"

text \<open>
  The body of the \<^verbatim>\<open>try\<close> block of \<^verbatim>\<open>getWorkingNotebook\<close>.
  \<open>Inl e\<close>: the block threw \<open>e\<close>; \<open>Inr (Some r)\<close>: it executed \<^verbatim>\<open>return r\<close>;
  \<open>Inr None\<close>: control fell through the end of the block.
\<close>

definition getWorkingNotebook_try ::
  "services \<Rightarrow> IToolCall \<Rightarrow> error + NotebookDocument option option" where
  "getWorkingNotebook_try sv toolCall =
     (case JSON_parse sv (arguments toolCall) of
        Inl e \<Rightarrow> Inl e
      | Inr args \<Rightarrow>
          (case get_filePath args of
             Inl e \<Rightarrow> Inl e
           | Inr (Some (JString filePath)) \<Rightarrow>
               (case resolveFilePath sv filePath of
                  Inl e \<Rightarrow> Inl e
                | Inr None \<Rightarrow> Inr (Some None)
                | Inr (Some u) \<Rightarrow>
                    Inr (Some (find (\<lambda>doc. uri doc = u) (notebookDocuments sv))))
           | Inr _ \<Rightarrow> Inr None))"

text \<open>
  The constant \<^verbatim>\<open>toolCall\<close> of \<^verbatim>\<open>getWorkingNotebook\<close>: the pending rounds of the
  incoming props are searched from the newest for a round with a notebook-execution call,
  and that round is searched from its first call.
\<close>

definition getWorkingNotebook_toolCall ::
  "services \<Rightarrow> SummarizedAgentHistoryProps \<Rightarrow> IToolCall option" where
  "getWorkingNotebook_toolCall sv p =
     (let toolCallRound =
            (case toolCallRounds (promptContext p) of
               None \<Rightarrow> None
             | Some rs \<Rightarrow>
                 find (\<lambda>round. list_ex (isRunNotebookCell sv) (toolCalls round)) (rev rs))
      in case toolCallRound of
           None \<Rightarrow> None
         | Some round \<Rightarrow> find (isRunNotebookCell sv) (toolCalls round))"

definition getWorkingNotebook ::
  "services \<Rightarrow> SummarizedAgentHistoryProps \<Rightarrow> error + NotebookDocument option" where
  "getWorkingNotebook sv p =
     (case getWorkingNotebook_toolCall sv p of
        None \<Rightarrow> Inr None
      | Some call \<Rightarrow>
          if arguments call \<noteq> [] then
            (case getWorkingNotebook_try sv call of
               Inl e \<Rightarrow> Inr None  \<comment> \<open>\<^verbatim>\<open>catch (e)\<close>: ignore parsing errors\<close>
             | Inr (Some r) \<Rightarrow> Inr r
             | Inr None \<Rightarrow> Inr None)
          else Inr None)"

text \<open>The object literal returned at the end of \<^verbatim>\<open>getProps\<close>.\<close>

definition getProps_result ::
  "services \<Rightarrow> SummarizedAgentHistoryProps \<Rightarrow> IToolCallRound list \<Rightarrow> bool \<Rightarrow> string
     \<Rightarrow> error + ISummarizedConversationHistoryInfo" where
  "getProps_result sv p tcr cont rid =
     (case getWorkingNotebook sv p of
        Inl e \<Rightarrow> Inl e
      | Inr nb \<Rightarrow>
          Inr \<lparr> props = p\<lparr> workingNotebook := nb,
                           promptContext :=
                             (promptContext p)\<lparr> toolCallRounds := Some tcr,
                                                isContinuation := cont \<rparr> \<rparr>,
                summarizedToolCallRoundId = rid \<rparr>)"

definition getProps ::
  "services \<Rightarrow> SummarizedAgentHistoryProps \<Rightarrow> error + ISummarizedConversationHistoryInfo" where
  "getProps sv p =
     (let tcr = toolCallRounds (promptContext p) in
      if (case tcr of None \<Rightarrow> False | Some rs \<Rightarrow> length rs > 1) then
        (let sliced = butlast (the tcr) in
         case at_last sliced of
           None \<Rightarrow> Inl TypeError
         | Some r \<Rightarrow> getProps_result sv p sliced (isContinuation (promptContext p)) (roundId r))
      else if length (history (promptContext p)) > 0 then
        (case at_last (history (promptContext p)) of
           None \<Rightarrow> Inl TypeError
         | Some t \<Rightarrow>
             (case at_last (rounds t) of
                None \<Rightarrow> Inl TypeError
              | Some r \<Rightarrow> getProps_result sv p [] True (roundId r)))
      else Inl NothingToSummarize)"

section \<open>HistoryPatcher: addSummaryToHistory\<close>

text \<open>
  \<^verbatim>\<open>rounds.find(round => round.id === toolCallRoundId)\<close> followed by the assignment
  \<^verbatim>\<open>round.summary = summary\<close>: the first round with that id is rewritten in place;
  \<open>None\<close> when \<^verbatim>\<open>find\<close> returns \<^verbatim>\<open>undefined\<close>.
\<close>

fun setSummary :: "string \<Rightarrow> string \<Rightarrow> IToolCallRound list \<Rightarrow> IToolCallRound list option" where
  "setSummary s x [] = None"
| "setSummary s x (r # rs) =
     (if roundId r = x then Some (r\<lparr>summary := Some s\<rparr> # rs)
      else map_option ((#) r) (setSummary s x rs))"

text \<open>The loop over the reversed copy of the history, left at the first turn that has the round.\<close>

fun setSummaryInTurns :: "string \<Rightarrow> string \<Rightarrow> Turn list \<Rightarrow> Turn list option" where
  "setSummaryInTurns s x [] = None"
| "setSummaryInTurns s x (t # ts) =
     (case setSummary s x (rounds t) of
        Some rs \<Rightarrow> Some (t\<lparr>rounds := rs\<rparr> # ts)
      | None \<Rightarrow> map_option ((#) t) (setSummaryInTurns s x ts))"

definition addSummaryToHistory :: "string \<Rightarrow> string \<Rightarrow> IBuildPromptContext \<Rightarrow> IBuildPromptContext" where
  "addSummaryToHistory s x ctx =
     (case (case toolCallRounds ctx of None \<Rightarrow> None | Some rs \<Rightarrow> setSummary s x rs) of
        Some rs \<Rightarrow> ctx\<lparr>toolCallRounds := Some rs\<rparr>
      | None \<Rightarrow>
          (case setSummaryInTurns s x (rev (history ctx)) of
             Some ts \<Rightarrow> ctx\<lparr>history := rev ts\<rparr>
           | None \<Rightarrow> ctx))"

section \<open>TelemetryReporter: sendSummarizationTelemetry\<close>

record telemetryEvent =
  evOutcome :: string
  evDetailedOutcome :: "string option"
  evRequestId :: string
  evModel :: string
  evLastUsedTool :: string
  evConversationId :: "string option"
  evNumRounds :: int
  evNumRoundsSinceLastSummarization :: int
  evIsDuringToolCalling :: int

text \<open>\<^verbatim>\<open>Array.prototype.findIndex\<close>: the first index satisfying the predicate, else \<open>-1\<close>.\<close>

fun findIndex :: "('a \<Rightarrow> bool) \<Rightarrow> 'a list \<Rightarrow> int" where
  "findIndex P [] = - 1"
| "findIndex P (x # xs) =
     (if P x then 0 else (let i = findIndex P xs in if i = - 1 then - 1 else i + 1))"

definition numRoundsInHistory :: "IBuildPromptContext \<Rightarrow> int" where
  "numRoundsInHistory ctx = foldl (\<lambda>a b. a + b) 0 (map (\<lambda>turn. int (length (rounds turn))) (history ctx))"

definition numRoundsInCurrentTurn :: "IBuildPromptContext \<Rightarrow> int" where
  "numRoundsInCurrentTurn ctx = (case toolCallRounds ctx of None \<Rightarrow> 0 | Some rs \<Rightarrow> int (length rs))"

definition numRounds :: "IBuildPromptContext \<Rightarrow> int" where
  "numRounds ctx = numRoundsInHistory ctx + numRoundsInCurrentTurn ctx"

text \<open>
  The inner loop over the reversed rounds of one turn. The state is the pair
  (\<^verbatim>\<open>count\<close>, \<^verbatim>\<open>numRoundsSinceLastSummarization\<close>); \<^verbatim>\<open>break\<close> leaves this loop only.
\<close>

fun countRounds :: "IToolCallRound list \<Rightarrow> int \<times> int \<Rightarrow> int \<times> int" where
  "countRounds [] st = st"
| "countRounds (round # rest) (count, n) =
     (if truthy (summary round) then (count, count) else countRounds rest (count + 1, n))"

text \<open>The outer loop over the reversed history: it visits every turn.\<close>

fun countTurns :: "Turn list \<Rightarrow> int \<times> int \<Rightarrow> int \<times> int" where
  "countTurns [] st = st"
| "countTurns (turn # rest) st = countTurns rest (countRounds (rev (rounds turn)) st)"

definition numRoundsSinceLastSummarization :: "IBuildPromptContext \<Rightarrow> int" where
  "numRoundsSinceLastSummarization ctx =
     (let reversedCurrentRounds = rev (case toolCallRounds ctx of None \<Rightarrow> [] | Some rs \<Rightarrow> rs);
          n = findIndex (\<lambda>round. truthy (summary round)) reversedCurrentRounds
      in if n = - 1 then snd (countTurns (rev (history ctx)) (numRoundsInCurrentTurn ctx, n))
         else n)"

text \<open>\<^verbatim>\<open>round?.toolCalls?.at(-1)?.name\<close>\<close>

definition lastToolName :: "IToolCallRound option \<Rightarrow> string option" where
  "lastToolName r = (case r of None \<Rightarrow> None | Some round \<Rightarrow> map_option name (at_last (toolCalls round)))"

definition lastUsedTool :: "IBuildPromptContext \<Rightarrow> string" where
  "lastUsedTool ctx =
     (case lastToolName (case toolCallRounds ctx of None \<Rightarrow> None | Some rs \<Rightarrow> at_last rs) of
        Some n \<Rightarrow> n
      | None \<Rightarrow>
          (case lastToolName (case at_last (history ctx) of None \<Rightarrow> None | Some t \<Rightarrow> at_last (rounds t)) of
             Some n \<Rightarrow> n
           | None \<Rightarrow> ''none''))"

definition isDuringToolCalling :: "IBuildPromptContext \<Rightarrow> int" where
  "isDuringToolCalling ctx =
     (if (case toolCallRounds ctx of None \<Rightarrow> False | Some rs \<Rightarrow> length rs \<noteq> 0) then 1 else 0)"

text \<open>The event handed to the telemetry service.\<close>

definition sendSummarizationTelemetry ::
  "SummarizedAgentHistoryProps \<Rightarrow> string \<Rightarrow> string \<Rightarrow> string \<Rightarrow> string option \<Rightarrow> telemetryEvent" where
  "sendSummarizationTelemetry p outcome rqId model detailedOutcome =
     \<lparr> evOutcome = outcome,
       evDetailedOutcome = detailedOutcome,
       evRequestId = rqId,
       evModel = model,
       evLastUsedTool = lastUsedTool (promptContext p),
       evConversationId = conversationSessionId (promptContext p),
       evNumRounds = numRounds (promptContext p),
       evNumRoundsSinceLastSummarization = numRoundsSinceLastSummarization (promptContext p),
       evIsDuringToolCalling = isDuringToolCalling (promptContext p) \<rparr>"

section \<open>SummarizationExecutor: summarizeHistory\<close>

datatype ChatFetchResponseType = Success | Failed | OtherType string

text \<open>The string of a response type; for the types other than the two the code names,
  the string is the constructor's argument.\<close>

fun typeString :: "ChatFetchResponseType \<Rightarrow> string" where
  "typeString Success = ''success''"
| "typeString Failed = ''failed''"
| "typeString (OtherType s) = s"

record ChatResponse =
  responseType :: ChatFetchResponseType
  requestId :: string
  responseValue :: string  \<comment> \<open>the property \<^verbatim>\<open>value\<close> of a successful response\<close>
  reason :: "string option"

type_synonym ChatMessage = string

text \<open>
  The collaborators of the executor: the prompt renderer, the endpoint, the sizing object
  and whether a progress sink was given. The call of \<^verbatim>\<open>makeChatRequest\<close> (the
  construction of its options included) either throws, the outer \<open>Inl\<close>, or returns a
  promise, which is rejected, the inner \<open>Inl\<close>, or fulfilled with a response. The
  asynchronous token counter returns a count or is rejected.
\<close>

record executor =
  renderPromptElement :: "SummarizedAgentHistoryProps \<Rightarrow> error + ChatMessage list"
  stripInternalToolCallIds :: "ChatMessage list \<Rightarrow> ChatMessage list"
  makeChatRequest :: "ChatMessage list \<Rightarrow> error + (error + ChatResponse)"
  countTokens :: "string \<Rightarrow> error + int"
  tokenBudget :: int
  hasProgress :: bool

text \<open>The observable effects of one attempt, in the order the code performs them.\<close>

datatype event =
    RenderPromptElement
  | MakeChatRequest "ChatMessage list"
  | ProgressReport
  | SendTelemetry telemetryEvent
  | AddSummaryToHistory string string

text \<open>
  The result of an attempt: what \<^verbatim>\<open>summarizeHistory\<close> returned or threw, the effects it
  performed, and the prompt context it leaves behind.
\<close>

record attempt =
  returned :: "error + (string \<times> string) option"  \<comment> \<open>(\<^verbatim>\<open>toolCallRoundId\<close>, \<^verbatim>\<open>summary\<close>)\<close>
  events :: "event list"
  finalContext :: IBuildPromptContext

definition summarizeHistory ::
  "services \<Rightarrow> executor \<Rightarrow> SummarizedAgentHistoryProps \<Rightarrow> attempt" where
  "summarizeHistory sv ex p =
     (case getProps sv p of
        Inl e \<Rightarrow> \<lparr> returned = Inl e, events = [], finalContext = promptContext p \<rparr>
      | Inr propsInfo \<Rightarrow>
          (case renderPromptElement ex (props propsInfo) of
             Inl e \<Rightarrow>
               (let budgetExceeded = (e = BudgetExceededError);
                    outcome = (if budgetExceeded then ''budget_exceeded'' else ''renderError'')
                in \<lparr> returned = Inl e,
                     events = [RenderPromptElement,
                               SendTelemetry (sendSummarizationTelemetry p outcome '''' (endpointModel p) None)],
                     finalContext = promptContext p \<rparr>)
           | Inr summarizationPrompt \<Rightarrow>
               (case makeChatRequest ex (stripInternalToolCallIds ex summarizationPrompt) of
                  Inl e \<Rightarrow>
                    \<lparr> returned = Inl e,
                      events = [RenderPromptElement,
                                MakeChatRequest (stripInternalToolCallIds ex summarizationPrompt),
                                SendTelemetry (sendSummarizationTelemetry p ''requestThrow'' ''''
                                  (endpointModel p) None)],
                      finalContext = promptContext p \<rparr>
                | Inr summaryPromise \<Rightarrow>
                    (let requested = [RenderPromptElement,
                                      MakeChatRequest (stripInternalToolCallIds ex summarizationPrompt)]
                                     @ (if hasProgress ex then [ProgressReport] else [])
                     in case summaryPromise of
                          Inl e \<Rightarrow>
                            \<lparr> returned = Inl e,
                              events = requested @
                                [SendTelemetry (sendSummarizationTelemetry p ''requestThrow'' ''''
                                   (endpointModel p) None)],
                              finalContext = promptContext p \<rparr>
                        | Inr response \<Rightarrow>  \<comment> \<open>the variable \<^verbatim>\<open>summary\<close>\<close>
                            if responseType response \<noteq> Success then
                              (let outcome = (if responseType response = Failed then ''failed''
                                              else typeString (responseType response))
                               in \<lparr> returned = Inl SummarizationFailed,
                                    events = requested @
                                      [SendTelemetry (sendSummarizationTelemetry p outcome
                                         (requestId response) (endpointModel p) (reason response))],
                                    finalContext = promptContext p \<rparr>)
                            else
                              (case countTokens ex (responseValue response) of
                                 Inl e \<Rightarrow>  \<comment> \<open>the awaited count is rejected, outside every \<^verbatim>\<open>try\<close>\<close>
                                   \<lparr> returned = Inl e, events = requested,
                                     finalContext = promptContext p \<rparr>
                               | Inr tokens \<Rightarrow>
                                   if tokens > tokenBudget ex then
                                     \<lparr> returned = Inl SummaryTooLarge,
                                       events = requested @
                                         [SendTelemetry (sendSummarizationTelemetry p ''too_large''
                                            (requestId response) (endpointModel p) None)],
                                       finalContext = promptContext p \<rparr>
                                   else if responseType response = Success then
                                     \<lparr> returned = Inr (Some (summarizedToolCallRoundId propsInfo,
                                                              responseValue response)),
                                       events = requested @
                                         [SendTelemetry (sendSummarizationTelemetry p ''success''
                                            (requestId response) (endpointModel p) None),
                                          AddSummaryToHistory (responseValue response)
                                            (summarizedToolCallRoundId propsInfo)],
                                       finalContext = addSummaryToHistory (responseValue response)
                                                        (summarizedToolCallRoundId propsInfo)
                                                        (promptContext p) \<rparr>
                                   else \<lparr> returned = Inr None, events = requested,
                                          finalContext = promptContext p \<rparr>)))))"

section \<open>SummarizationRequestBuilder: ConversationHistory.render\<close>

text \<open>The elements the renderer emits; \<open>ChatToolCalls\<close> carries the rounds shown verbatim,
  the tool results handed to it and the \<^verbatim>\<open>isHistorical\<close> flag when one is given.\<close>

datatype PromptElement =
    ChatToolCalls "IToolCallRound list" "(string \<rightharpoonup> string) option" "bool option"
  | ConversationSummary string  \<comment> \<open>a user message holding the \<^verbatim>\<open>conversation-summary\<close> tag\<close>
  | AgentUserMessageFromAgentProps
  | AgentUserMessageFromTurn Turn

text \<open>\<^verbatim>\<open>round.summary ? new SummarizedConversationHistoryMetadata(round.id, round.summary) : undefined\<close>;
  the pair is (\<^verbatim>\<open>toolCallRoundId\<close>, \<^verbatim>\<open>text\<close>).\<close>

definition summarizedMetadata :: "IToolCallRound \<Rightarrow> (string \<times> string) option" where
  "summarizedMetadata round =
     (case summary round of
        None \<Rightarrow> None
      | Some s \<Rightarrow> if s \<noteq> [] then Some (roundId round, s) else None)"

text \<open>
  The backward loop over a list of rounds (given newest first): rounds are pushed until one
  carries a summary. Returns the summary found, if any, and the rounds pushed.
\<close>

fun collectRounds ::
  "IToolCallRound list \<Rightarrow> IToolCallRound list \<Rightarrow> (string \<times> string) option \<times> IToolCallRound list" where
  "collectRounds [] pushed = (None, pushed)"
| "collectRounds (round # older) pushed =
     (case summarizedMetadata round of
        Some m \<Rightarrow> (Some m, pushed)
      | None \<Rightarrow> collectRounds older (pushed @ [round]))"

text \<open>\<^verbatim>\<open>{ ...a }\<close> of an optional object.\<close>

definition spread :: "(string \<rightharpoonup> string) option \<Rightarrow> (string \<rightharpoonup> string)" where
  "spread m = (case m of None \<Rightarrow> Map.empty | Some f \<Rightarrow> f)"

text \<open>\<^verbatim>\<open>xs.at(i)\<close> for a non-negative index.\<close>

definition at_index :: "'a list \<Rightarrow> nat \<Rightarrow> 'a option" where
  "at_index xs i = (if i < length xs then Some (xs ! i) else None)"

text \<open>\<^verbatim>\<open>metadata?.maxToolCallsExceeded\<close>: the tool call of this turn was aborted and its
  result is found in the next turn.\<close>

definition toolCallResultInNextTurn :: "Turn \<Rightarrow> bool" where
  "toolCallResultInNextTurn turn =
     (case resultMetadata turn of None \<Rightarrow> False | Some m \<Rightarrow> maxToolCallsExceeded m)"

text \<open>The tool results handed to the rounds of the turn at index \<open>i\<close> of the history.\<close>

definition turnToolCallResults ::
  "IBuildPromptContext \<Rightarrow> nat \<Rightarrow> Turn \<Rightarrow> (string \<rightharpoonup> string) option" where
  "turnToolCallResults ctx i turn =
     (let results0 = (case resultMetadata turn of None \<Rightarrow> None | Some m \<Rightarrow> metaToolCallResults m)
      in if toolCallResultInNextTurn turn then
           (let nextMetadata =
                  (case at_index (history ctx) (i + 1) of
                     None \<Rightarrow> None
                   | Some t \<Rightarrow> responseChatResultMetadata t);
                mergeFrom =
                  (if i = length (history ctx) - 1 then toolCallResults ctx
                   else (case nextMetadata of None \<Rightarrow> None | Some m \<Rightarrow> metaToolCallResults m))
            in Some (spread results0 ++ spread mergeFrom))
         else results0)"

text \<open>
  The loop over the reversed entries of the history. The second argument is what is left
  of \<^verbatim>\<open>[...history.entries()].reverse()\<close>, the third the array \<^verbatim>\<open>history\<close> of
  elements pushed so far.
\<close>

fun renderTurns ::
  "IBuildPromptContext \<Rightarrow> (nat \<times> Turn) list \<Rightarrow> PromptElement list \<Rightarrow> PromptElement list" where
  "renderTurns ctx [] pushed = pushed"
| "renderTurns ctx ((i, turn) # older) pushed =
     (let collected = collectRounds (rev (rounds turn)) [];
          summaryForTurn = fst collected;
          turnComponents =
            [case summaryForTurn of
               Some m \<Rightarrow> ConversationSummary (snd m)
             | None \<Rightarrow> AgentUserMessageFromTurn turn,
             ChatToolCalls (rev (snd collected)) (turnToolCallResults ctx i turn)
               (Some (\<not> (toolCallResultInNextTurn turn \<and> i = length (history ctx) - 1)))];
          pushed' = pushed @ rev turnComponents
      in if summaryForTurn \<noteq> None then pushed' else renderTurns ctx older pushed')"

definition render :: "IBuildPromptContext \<Rightarrow> PromptElement list" where
  "render ctx =
     (let current =
            (case toolCallRounds ctx of
               None \<Rightarrow> (None, [])
             | Some rs \<Rightarrow>
                 if length rs \<noteq> 0 then
                   (let collected = collectRounds (rev rs) []
                    in (fst collected,
                        [ChatToolCalls (rev (snd collected)) (toolCallResults ctx) None]))
                 else (None, []));
          summaryForCurrentTurn = fst current;
          pushed = snd current
      in case summaryForCurrentTurn of
           Some m \<Rightarrow> rev (pushed @ [ConversationSummary (snd m)])
         | None \<Rightarrow>
             (let pushed' = (if \<not> isContinuation ctx then pushed @ [AgentUserMessageFromAgentProps]
                             else pushed)
              in rev (renderTurns ctx (rev (enumerate 0 (history ctx))) pushed')))"

section \<open>Reading a context, a rendered prompt and an attempt\<close>

text \<open>Every round of a context in chronological order: the persisted turns, oldest first,
  then the pending rounds of the turn in progress.\<close>

definition pendingRounds :: "IBuildPromptContext \<Rightarrow> IToolCallRound list" where
  "pendingRounds ctx = (case toolCallRounds ctx of None \<Rightarrow> [] | Some rs \<Rightarrow> rs)"

definition allRounds :: "IBuildPromptContext \<Rightarrow> IToolCallRound list" where
  "allRounds ctx = concat (map rounds (history ctx)) @ pendingRounds ctx"

text \<open>A round carries a summary when the code's test \<^verbatim>\<open>round.summary\<close> succeeds.\<close>

definition hasSummary :: "IToolCallRound \<Rightarrow> bool" where
  "hasSummary round = truthy (summary round)"

text \<open>The ids of a list of rounds, and the index of the first round with a given id.\<close>

definition roundIds :: "IToolCallRound list \<Rightarrow> string set" where
  "roundIds rs = set (map roundId rs)"

definition firstIndex :: "string \<Rightarrow> IToolCallRound list \<Rightarrow> nat" where
  "firstIndex x rs = length (takeWhile (\<lambda>r. roundId r \<noteq> x) rs)"

text \<open>The rounds a rendered prompt shows verbatim, and the summary texts it shows.\<close>

fun elementRounds :: "PromptElement \<Rightarrow> IToolCallRound list" where
  "elementRounds (ChatToolCalls rs _ _) = rs"
| "elementRounds _ = []"

fun elementSummary :: "PromptElement \<Rightarrow> string list" where
  "elementSummary (ConversationSummary s) = [s]"
| "elementSummary _ = []"

definition verbatimRounds :: "PromptElement list \<Rightarrow> IToolCallRound list" where
  "verbatimRounds es = concat (map elementRounds es)"

definition summaryTexts :: "PromptElement list \<Rightarrow> string list" where
  "summaryTexts es = concat (map elementSummary es)"

text \<open>The rounds of the given history entries, newest first.\<close>

definition backwards :: "(nat \<times> Turn) list \<Rightarrow> IToolCallRound list" where
  "backwards es = concat (map (\<lambda>e. rev (rounds (snd e))) es)"

text \<open>The text of the newest summarized round of a list given newest first, as a list of
  at most one element.\<close>

definition latestSummaryText :: "IToolCallRound list \<Rightarrow> string list" where
  "latestSummaryText xs =
     (case find hasSummary xs of
        None \<Rightarrow> []
      | Some r \<Rightarrow> (case summary r of None \<Rightarrow> [] | Some s \<Rightarrow> [s]))"

text \<open>The calls of the completion endpoint, the telemetry events and the calls of the
  history patcher among the effects of an attempt.\<close>

definition requestCount :: "event list \<Rightarrow> nat" where
  "requestCount es = length (filter (\<lambda>e. case e of MakeChatRequest _ \<Rightarrow> True | _ \<Rightarrow> False) es)"

fun telemetryOf :: "event \<Rightarrow> telemetryEvent list" where
  "telemetryOf (SendTelemetry t) = [t]"
| "telemetryOf _ = []"

definition telemetryEvents :: "event list \<Rightarrow> telemetryEvent list" where
  "telemetryEvents es = concat (map telemetryOf es)"

definition patchCount :: "event list \<Rightarrow> nat" where
  "patchCount es = length (filter (\<lambda>e. case e of AddSummaryToHistory _ _ \<Rightarrow> True | _ \<Rightarrow> False) es)"

text \<open>
  \<open>notebookCall sv p call\<close>: \<open>call\<close> is the first notebook-execution call of the newest
  pending round of \<open>p\<close> that has such a call.
\<close>

definition notebookCall :: "services \<Rightarrow> SummarizedAgentHistoryProps \<Rightarrow> IToolCall \<Rightarrow> bool" where
  "notebookCall sv p call \<longleftrightarrow>
     (\<exists>older round newer earlier later.
        toolCallRounds (promptContext p) = Some (older @ [round] @ newer)
      \<and> (\<forall>q \<in> set newer. \<not> list_ex (isRunNotebookCell sv) (toolCalls q))
      \<and> toolCalls round = earlier @ [call] @ later
      \<and> (\<forall>k \<in> set earlier. \<not> isRunNotebookCell sv k)
      \<and> isRunNotebookCell sv call)"

section \<open>The invariant of the data model and the round the patcher writes\<close>

text \<open>
  A turn holds one or more rounds. The code relies on it where it reads the last round of a
  turn behind a non-null assertion.
\<close>

definition turnsHaveRounds :: "IBuildPromptContext \<Rightarrow> bool" where
  "turnsHaveRounds ctx = list_all (\<lambda>turn. rounds turn \<noteq> []) (history ctx)"

text \<open>
  The position, in the chronological list of the rounds of the persisted turns, of the round
  \<open>addSummaryToHistory\<close> writes when no pending round has the id: the first round with the id
  in the newest turn that has one.
\<close>

fun indexInTurns :: "string \<Rightarrow> Turn list \<Rightarrow> nat option" where
  "indexInTurns x [] = None"
| "indexInTurns x (t # newer) =
     (case indexInTurns x newer of
        Some i \<Rightarrow> Some (length (rounds t) + i)
      | None \<Rightarrow> if x \<in> roundIds (rounds t) then Some (firstIndex x (rounds t)) else None)"

text \<open>The position, in \<open>allRounds\<close>, of the round \<open>addSummaryToHistory\<close> writes: the first
  pending round with the id if there is one, else the round found in the persisted turns.\<close>

definition patchedIndex :: "string \<Rightarrow> IBuildPromptContext \<Rightarrow> nat option" where
  "patchedIndex x ctx =
     (if x \<in> roundIds (pendingRounds ctx)
      then Some (length (concat (map rounds (history ctx))) + firstIndex x (pendingRounds ctx))
      else indexInTurns x (history ctx))"

text \<open>
  Selection followed by the build: \<^verbatim>\<open>summarizeHistory\<close> renders the summarization prompt
  with the props \<open>getProps\<close> returns, and the prompt holds the \<^verbatim>\<open>ConversationHistory\<close> of
  the prompt context of these props.
\<close>

definition selectAndBuild ::
  "services \<Rightarrow> SummarizedAgentHistoryProps \<Rightarrow> error + PromptElement list" where
  "selectAndBuild sv p =
     (case getProps sv p of
        Inl e \<Rightarrow> Inl e
      | Inr propsInfo \<Rightarrow> Inr (render (promptContext (props propsInfo))))"

text \<open>The props of an attempt after a summary was installed on its prompt context.\<close>

definition withSummary :: "string \<Rightarrow> string \<Rightarrow> SummarizedAgentHistoryProps \<Rightarrow> SummarizedAgentHistoryProps" where
  "withSummary s x p = p\<lparr>promptContext := addSummaryToHistory s x (promptContext p)\<rparr>"

text \<open>
  The telemetry event \<open>t\<close> is the only one of the attempt and its last effect; or the only
  one, followed by nothing but the installation of the summary.
\<close>

definition reportedLast :: "attempt \<Rightarrow> telemetryEvent \<Rightarrow> bool" where
  "reportedLast a t \<longleftrightarrow>
     (\<exists>pre. events a = pre @ [SendTelemetry t] \<and> telemetryEvents pre = [] \<and> patchCount pre = 0)"

definition reportedBeforeInstall :: "attempt \<Rightarrow> telemetryEvent \<Rightarrow> string \<Rightarrow> string \<Rightarrow> bool" where
  "reportedBeforeInstall a t s x \<longleftrightarrow>
     (\<exists>pre. events a = pre @ [SendTelemetry t, AddSummaryToHistory s x]
        \<and> telemetryEvents pre = [] \<and> patchCount pre = 0)"

section \<open>Two notions in the words of the specification\<close>

text \<open>
  The measurement \<^verbatim>\<open>numRoundsSinceLastSummarization\<close> as the specification and the
  documentation of the telemetry event word it: the number of rounds after the newest round
  that carries a summary.
\<close>

definition roundsSinceLastSummarization_spec :: "IBuildPromptContext \<Rightarrow> int" where
  "roundsSinceLastSummarization_spec ctx =
     int (length (takeWhile (\<lambda>r. \<not> hasSummary r) (rev (allRounds ctx))))"

text \<open>
  The call the working notebook is taken from as the specification words it: the most recent
  notebook-execution call among the given (selected) rounds.
\<close>

definition mostRecentNotebookCall_spec :: "services \<Rightarrow> IToolCallRound list \<Rightarrow> IToolCall option" where
  "mostRecentNotebookCall_spec sv selected =
     find (isRunNotebookCell sv) (rev (concat (map toolCalls selected)))"

section \<open>Example inputs\<close>

definition mkRound :: "string \<Rightarrow> IToolCall list \<Rightarrow> string option \<Rightarrow> IToolCallRound" where
  "mkRound i calls s = \<lparr> roundId = i, toolCalls = calls, summary = s \<rparr>"

definition mkTurn :: "IToolCallRound list \<Rightarrow> Turn" where
  "mkTurn rs = \<lparr> rounds = rs, resultMetadata = None, responseChatResultMetadata = None \<rparr>"

definition mkContext :: "Turn list \<Rightarrow> IToolCallRound list option \<Rightarrow> IBuildPromptContext" where
  "mkContext h pending =
     \<lparr> history = h, toolCallRounds = pending, toolCallResults = None,
       isContinuation = False, conversationSessionId = Some ''session-1'' \<rparr>"

definition mkProps :: "IBuildPromptContext \<Rightarrow> SummarizedAgentHistoryProps" where
  "mkProps ctx = \<lparr> promptContext = ctx, endpointModel = ''model-1'', workingNotebook = None \<rparr>"

text \<open>The JSON text \<^verbatim>\<open>{"filePath":"<path>"}\<close>.\<close>

definition filePathArgs :: "string \<Rightarrow> string" where
  "filePathArgs path =
     ''{'' @ [CHR 0x22] @ ''filePath'' @ [CHR 0x22] @ '':'' @ [CHR 0x22] @ path @ [CHR 0x22] @ ''}''"

text \<open>A parser that knows the texts of four notebook paths and the text \<^verbatim>\<open>null\<close>,
  and rejects everything else.\<close>

definition exampleParse :: "string \<Rightarrow> error + json" where
  "exampleParse s =
     (if s = ''null'' then Inr JNull
      else case find (\<lambda>path. s = filePathArgs path) [''a.ipynb'', ''b.ipynb'', ''c.ipynb'', ''d.ipynb''] of
             Some path \<Rightarrow> Inr (JObject [(''filePath'', JString path)])
           | None \<Rightarrow> Inl SyntaxError)"

definition openNotebook :: "string \<Rightarrow> NotebookDocument" where
  "openNotebook path = \<lparr> uri = ''file:///'' @ path, notebookType = ''jupyter-notebook'' \<rparr>"

definition exampleServices :: services where
  "exampleServices =
     \<lparr> JSON_parse = exampleParse,
       resolveFilePath = (\<lambda>path. Inr (Some (''file:///'' @ path))),
       notebookDocuments = map openNotebook [''a.ipynb'', ''b.ipynb'', ''c.ipynb'', ''d.ipynb''],
       RunNotebookCell = ''run_notebook_cell'' \<rparr>"

definition runCell :: "string \<Rightarrow> IToolCall" where
  "runCell path = \<lparr> name = ''run_notebook_cell'', arguments = filePathArgs path \<rparr>"

text \<open>An executor whose renderer succeeds, whose endpoint settles with the given answer,
  and whose token counter is the length of the text.\<close>

definition exampleExecutor :: "error + ChatResponse \<Rightarrow> int \<Rightarrow> executor" where
  "exampleExecutor answer budget =
     \<lparr> renderPromptElement = (\<lambda>p. Inr [''summarize'']),
       stripInternalToolCallIds = (\<lambda>ms. ms),
       makeChatRequest = (\<lambda>ms. Inr answer),
       countTokens = (\<lambda>s. Inr (int (length s))),
       tokenBudget = budget,
       hasProgress = True \<rparr>"

definition successResponse :: "string \<Rightarrow> ChatResponse" where
  "successResponse text =
     \<lparr> responseType = Success, requestId = ''req-1'', responseValue = text, reason = None \<rparr>"

text \<open>An executor like the one before whose token counter is rejected.\<close>

definition rejectingCounter :: "error + ChatResponse \<Rightarrow> executor" where
  "rejectingCounter answer =
     \<lparr> renderPromptElement = (\<lambda>p. Inr [''summarize'']),
       stripInternalToolCallIds = (\<lambda>ms. ms),
       makeChatRequest = (\<lambda>ms. Inr answer),
       countTokens = (\<lambda>s. Inl (OtherError ''tokenizer'')),
       tokenBudget = 10,
       hasProgress = True \<rparr>"

text \<open>A prior turn with one round and two pending rounds.\<close>

definition priorAndPending :: SummarizedAgentHistoryProps where
  "priorAndPending =
     mkProps (mkContext [mkTurn [mkRound ''h1'' [] None]]
       (Some [mkRound ''p1'' [] None, mkRound ''p2'' [] None]))"

text \<open>A prior turn with one round and three pending rounds.\<close>

definition priorAndThreePending :: SummarizedAgentHistoryProps where
  "priorAndThreePending =
     mkProps (mkContext [mkTurn [mkRound ''h1'' [] None]]
       (Some [mkRound ''p1'' [] None, mkRound ''p2'' [] None, mkRound ''p3'' [] None]))"

text \<open>Two pending rounds, each with two notebook-execution calls, on four open notebooks.\<close>

definition notebookProps :: SummarizedAgentHistoryProps where
  "notebookProps =
     mkProps (mkContext []
       (Some [mkRound ''p1'' [runCell ''a.ipynb'', runCell ''b.ipynb''] None,
              mkRound ''p2'' [runCell ''c.ipynb'', runCell ''d.ipynb''] None]))"

text \<open>Two persisted turns, each summarized at its first round, and no pending round.\<close>

definition twiceSummarized :: IBuildPromptContext where
  "twiceSummarized =
     mkContext
       [mkTurn [mkRound ''a'' [] (Some ''s1''), mkRound ''b'' [] None],
        mkTurn [mkRound ''c'' [] (Some ''s2''), mkRound ''d'' [] None]]
       None"

section \<open>Round selection\<close>

text \<open>The notebook lookup never throws: whatever its \<^verbatim>\<open>try\<close> block throws is caught.\<close>

lemma getWorkingNotebook_total: "\<exists>r. getWorkingNotebook sv p = Inr r"
  by (simp add: getWorkingNotebook_def split: option.splits sum.splits)

lemma getProps_result_Inr:
  "\<exists>nb. getProps_result sv p tcr cont rid =
     Inr \<lparr> props = p\<lparr> workingNotebook := nb,
                      promptContext := (promptContext p)\<lparr> toolCallRounds := Some tcr,
                                                           isContinuation := cont \<rparr> \<rparr>,
           summarizedToolCallRoundId = rid \<rparr>"
  using getWorkingNotebook_total [of sv p]
  by (auto simp: getProps_result_def)

lemma at_last_eq: "at_last xs = (if xs = [] then None else Some (last xs))"
  by (cases xs) simp_all

text \<open>
  C1. When the turn in progress has two or more pending rounds, \<open>getProps\<close> succeeds, the
  rounds it selects are the pending rounds without the last one, and the covered-round id
  is the id of the new last pending round, the second-to-last of the original list. The
  history and the continuation flag are passed on unchanged.
\<close>

theorem getProps_drops_last_pending:
  assumes "toolCallRounds (promptContext p) = Some rs" and "2 \<le> length rs"
  shows "\<exists>info. getProps sv p = Inr info
           \<and> toolCallRounds (promptContext (props info)) = Some (butlast rs)
           \<and> summarizedToolCallRoundId info = roundId (last (butlast rs))
           \<and> summarizedToolCallRoundId info = roundId (rs ! (length rs - 2))
           \<and> history (promptContext (props info)) = history (promptContext p)
           \<and> isContinuation (promptContext (props info)) = isContinuation (promptContext p)"
proof -
  let ?rid = "roundId (last (butlast rs))"
  let ?cont = "isContinuation (promptContext p)"
  from assms(2) have ne: "butlast rs \<noteq> []"
    by (cases rs) (auto simp: Suc_le_eq)
  have idx: "last (butlast rs) = rs ! (length rs - 2)"
    using ne assms(2) by (simp add: last_conv_nth nth_butlast numeral_2_eq_2)
  obtain nb where r: "getProps_result sv p (butlast rs) ?cont ?rid =
     Inr \<lparr> props = p\<lparr> workingNotebook := nb,
                      promptContext := (promptContext p)\<lparr> toolCallRounds := Some (butlast rs),
                                                           isContinuation := ?cont \<rparr> \<rparr>,
           summarizedToolCallRoundId = ?rid \<rparr>"
    using getProps_result_Inr by blast
  have "getProps sv p = getProps_result sv p (butlast rs) ?cont ?rid"
    using assms ne by (simp add: getProps_def at_last_eq Let_def)
  with r idx show ?thesis by simp
qed

theorem getProps_drops_last_pending_witness:
  "toolCallRounds (promptContext (mkProps (mkContext []
      (Some [mkRound ''p1'' [] None, mkRound ''p2'' [] None, mkRound ''p3'' [] None]))))
     = Some [mkRound ''p1'' [] None, mkRound ''p2'' [] None, mkRound ''p3'' [] None]
   \<and> (2::nat) \<le> length [mkRound ''p1'' [] None, mkRound ''p2'' [] None, mkRound ''p3'' [] None]
   \<and> (\<exists>info. getProps exampleServices (mkProps (mkContext []
          (Some [mkRound ''p1'' [] None, mkRound ''p2'' [] None, mkRound ''p3'' [] None]))) = Inr info
        \<and> toolCallRounds (promptContext (props info))
            = Some [mkRound ''p1'' [] None, mkRound ''p2'' [] None]
        \<and> summarizedToolCallRoundId info = ''p2'')"
  using getProps_drops_last_pending
    [of "mkProps (mkContext []
           (Some [mkRound ''p1'' [] None, mkRound ''p2'' [] None, mkRound ''p3'' [] None]))"
        "[mkRound ''p1'' [] None, mkRound ''p2'' [] None, mkRound ''p3'' [] None]"
        exampleServices]
  by (auto simp add: mkRound_def mkContext_def mkProps_def)

text \<open>The fallback rule needs nothing of the history but a round in its last turn.\<close>

lemma getProps_fallback:
  assumes "length (pendingRounds (promptContext p)) \<le> 1"
    and "history (promptContext p) \<noteq> []"
    and "rounds (last (history (promptContext p))) \<noteq> []"
  shows "\<exists>info. getProps sv p = Inr info
           \<and> isContinuation (promptContext (props info))
           \<and> toolCallRounds (promptContext (props info)) = Some []
           \<and> summarizedToolCallRoundId info = roundId (last (rounds (last (history (promptContext p)))))
           \<and> history (promptContext (props info)) = history (promptContext p)"
proof -
  let ?rid = "roundId (last (rounds (last (history (promptContext p)))))"
  obtain nb where r: "getProps_result sv p [] True ?rid =
     Inr \<lparr> props = p\<lparr> workingNotebook := nb,
                      promptContext := (promptContext p)\<lparr> toolCallRounds := Some [],
                                                           isContinuation := True \<rparr> \<rparr>,
           summarizedToolCallRoundId = ?rid \<rparr>"
    using getProps_result_Inr by blast
  have "getProps sv p = getProps_result sv p [] True ?rid"
    using assms
    by (auto simp: getProps_def at_last_eq pendingRounds_def Let_def split: option.splits)
  with r show ?thesis by simp
qed

text \<open>
  C2. On the data model, where every turn holds one or more rounds: with at most one pending
  round and at least one prior turn, \<open>getProps\<close> succeeds, sets the continuation flag,
  selects no pending round, and the covered-round id is the id of the last round of the
  last prior turn. The history is passed on unchanged.
\<close>

theorem getProps_falls_back_to_last_turn:
  assumes "turnsHaveRounds (promptContext p)"
    and "length (pendingRounds (promptContext p)) \<le> 1"
    and "length (history (promptContext p)) \<ge> 1"
  shows "\<exists>info. getProps sv p = Inr info
           \<and> isContinuation (promptContext (props info))
           \<and> toolCallRounds (promptContext (props info)) = Some []
           \<and> summarizedToolCallRoundId info = roundId (last (rounds (last (history (promptContext p)))))
           \<and> history (promptContext (props info)) = history (promptContext p)"
proof -
  from assms(3) have ne: "history (promptContext p) \<noteq> []"
    by auto
  then have "last (history (promptContext p)) \<in> set (history (promptContext p))"
    by simp
  with assms(1) have "rounds (last (history (promptContext p))) \<noteq> []"
    by (simp add: turnsHaveRounds_def list_all_iff)
  with assms(2) ne show ?thesis
    by (rule getProps_fallback)
qed

theorem getProps_falls_back_to_last_turn_witness:
  "turnsHaveRounds (promptContext (mkProps (mkContext
       [mkTurn [mkRound ''r0'' [] None], mkTurn [mkRound ''r1'' [] None]] (Some [mkRound ''p1'' [] None]))))
   \<and> length (pendingRounds (promptContext (mkProps (mkContext
       [mkTurn [mkRound ''r0'' [] None], mkTurn [mkRound ''r1'' [] None]] (Some [mkRound ''p1'' [] None]))))) \<le> 1
   \<and> length (history (promptContext (mkProps (mkContext
       [mkTurn [mkRound ''r0'' [] None], mkTurn [mkRound ''r1'' [] None]] (Some [mkRound ''p1'' [] None]))))) \<ge> 1
   \<and> (\<exists>info. getProps exampleServices (mkProps (mkContext
          [mkTurn [mkRound ''r0'' [] None], mkTurn [mkRound ''r1'' [] None]] (Some [mkRound ''p1'' [] None]))) = Inr info
        \<and> isContinuation (promptContext (props info))
        \<and> toolCallRounds (promptContext (props info)) = Some []
        \<and> summarizedToolCallRoundId info = ''r1'')"
  using getProps_falls_back_to_last_turn
    [of "mkProps (mkContext [mkTurn [mkRound ''r0'' [] None], mkTurn [mkRound ''r1'' [] None]]
           (Some [mkRound ''p1'' [] None]))" exampleServices]
  by (auto simp add: mkRound_def mkTurn_def mkContext_def mkProps_def pendingRounds_def
      turnsHaveRounds_def)

text \<open>
  C10. \<open>getProps\<close> reads the id of the last round of the last prior turn without a guard:
  with at most one pending round and a non-empty history whose last turn has no round,
  the read is on \<^verbatim>\<open>undefined\<close> and the attempt throws a \<open>TypeError\<close>, not the
  \<open>NothingToSummarize\<close> error.
\<close>

theorem getProps_empty_last_turn:
  assumes "length (pendingRounds (promptContext p)) \<le> 1"
    and "history (promptContext p) \<noteq> []"
    and "rounds (last (history (promptContext p))) = []"
  shows "getProps sv p = Inl TypeError \<and> getProps sv p \<noteq> Inl NothingToSummarize"
  using assms
  by (auto simp: getProps_def at_last_eq pendingRounds_def Let_def split: option.splits)

theorem getProps_empty_last_turn_witness:
  "length (pendingRounds (promptContext (mkProps (mkContext
       [mkTurn [mkRound ''r1'' [] None], mkTurn []] (Some [mkRound ''p1'' [] None]))))) \<le> 1
   \<and> history (promptContext (mkProps (mkContext
       [mkTurn [mkRound ''r1'' [] None], mkTurn []] (Some [mkRound ''p1'' [] None])))) \<noteq> []
   \<and> rounds (last (history (promptContext (mkProps (mkContext
       [mkTurn [mkRound ''r1'' [] None], mkTurn []] (Some [mkRound ''p1'' [] None])))))) = []
   \<and> getProps exampleServices (mkProps (mkContext
       [mkTurn [mkRound ''r1'' [] None], mkTurn []] (Some [mkRound ''p1'' [] None]))) = Inl TypeError"
  using getProps_empty_last_turn
    [of "mkProps (mkContext [mkTurn [mkRound ''r1'' [] None], mkTurn []] (Some [mkRound ''p1'' [] None]))"
        exampleServices]
  by (simp add: mkRound_def mkTurn_def mkContext_def mkProps_def pendingRounds_def)

section \<open>The executor\<close>

text \<open>
  C3. With no prior turn and at most one pending round, the attempt throws the
  \<open>NothingToSummarize\<close> error before any effect: no prompt is rendered, the completion
  endpoint is called zero times, and the context is left as it was.
\<close>

theorem nothing_to_summarize:
  assumes "history (promptContext p) = []"
    and "length (pendingRounds (promptContext p)) \<le> 1"
  shows "returned (summarizeHistory sv ex p) = Inl NothingToSummarize
       \<and> events (summarizeHistory sv ex p) = []
       \<and> requestCount (events (summarizeHistory sv ex p)) = 0
       \<and> finalContext (summarizeHistory sv ex p) = promptContext p"
proof -
  have "getProps sv p = Inl NothingToSummarize"
    using assms by (auto simp: getProps_def pendingRounds_def Let_def split: option.splits)
  then show ?thesis by (simp add: summarizeHistory_def requestCount_def)
qed

theorem nothing_to_summarize_witness:
  "history (promptContext (mkProps (mkContext [] (Some [mkRound ''p1'' [] None])))) = []
   \<and> length (pendingRounds (promptContext (mkProps (mkContext [] (Some [mkRound ''p1'' [] None]))))) \<le> 1
   \<and> returned (summarizeHistory exampleServices (exampleExecutor (Inr (successResponse ''S1'')) 10)
        (mkProps (mkContext [] (Some [mkRound ''p1'' [] None])))) = Inl NothingToSummarize
   \<and> requestCount (events (summarizeHistory exampleServices (exampleExecutor (Inr (successResponse ''S1'')) 10)
        (mkProps (mkContext [] (Some [mkRound ''p1'' [] None]))))) = 0"
  using nothing_to_summarize
    [of "mkProps (mkContext [] (Some [mkRound ''p1'' [] None]))" exampleServices
        "exampleExecutor (Inr (successResponse ''S1'')) 10"]
  by (simp add: mkRound_def mkContext_def mkProps_def pendingRounds_def requestCount_def)

text \<open>
  C4. When selection and rendering succeed and the endpoint answers with a successful
  response whose text counts more tokens than the budget, the attempt throws the
  \<open>SummaryTooLarge\<close> error, reports the outcome \<^verbatim>\<open>too_large\<close>, never calls
  \<open>addSummaryToHistory\<close>, and leaves the whole prompt context, the covered round's summary
  included, as it was.
\<close>

theorem summary_too_large:
  assumes "getProps sv p = Inr info"
    and "renderPromptElement ex (props info) = Inr msgs"
    and "makeChatRequest ex (stripInternalToolCallIds ex msgs) = Inr (Inr response)"
    and "responseType response = Success"
    and "countTokens ex (responseValue response) = Inr tokens"
    and "tokens > tokenBudget ex"
  shows "returned (summarizeHistory sv ex p) = Inl SummaryTooLarge
       \<and> patchCount (events (summarizeHistory sv ex p)) = 0
       \<and> finalContext (summarizeHistory sv ex p) = promptContext p
       \<and> telemetryEvents (events (summarizeHistory sv ex p)) =
           [sendSummarizationTelemetry p ''too_large'' (requestId response) (endpointModel p) None]"
proof -
  let ?requested = "[RenderPromptElement, MakeChatRequest (stripInternalToolCallIds ex msgs)]
                      @ (if hasProgress ex then [ProgressReport] else [])"
  let ?report = "sendSummarizationTelemetry p ''too_large'' (requestId response) (endpointModel p) None"
  have run: "summarizeHistory sv ex p =
      \<lparr> returned = Inl SummaryTooLarge, events = ?requested @ [SendTelemetry ?report],
        finalContext = promptContext p \<rparr>"
    using assms by (simp add: summarizeHistory_def Let_def)
  have "patchCount (?requested @ [SendTelemetry ?report]) = 0"
    by (simp add: patchCount_def)
  moreover have "telemetryEvents (?requested @ [SendTelemetry ?report]) = [?report]"
    by (simp add: telemetryEvents_def)
  ultimately show ?thesis
    by (simp add: run)
qed

theorem summary_too_large_witness:
  "returned (summarizeHistory exampleServices (exampleExecutor (Inr (successResponse ''S1'')) 1)
       (mkProps (mkContext [mkTurn [mkRound ''r1'' [] None]] (Some [])))) = Inl SummaryTooLarge
   \<and> patchCount (events (summarizeHistory exampleServices (exampleExecutor (Inr (successResponse ''S1'')) 1)
       (mkProps (mkContext [mkTurn [mkRound ''r1'' [] None]] (Some []))))) = 0
   \<and> finalContext (summarizeHistory exampleServices (exampleExecutor (Inr (successResponse ''S1'')) 1)
       (mkProps (mkContext [mkTurn [mkRound ''r1'' [] None]] (Some []))))
       = mkContext [mkTurn [mkRound ''r1'' [] None]] (Some [])"
proof -
  let ?p = "mkProps (mkContext [mkTurn [mkRound ''r1'' [] None]] (Some []))"
  let ?ex = "exampleExecutor (Inr (successResponse ''S1'')) 1"
  let ?info = "\<lparr> props = ?p\<lparr> workingNotebook := None,
                      promptContext := (promptContext ?p)\<lparr> toolCallRounds := Some [],
                                                            isContinuation := True \<rparr> \<rparr>,
                  summarizedToolCallRoundId = ''r1'' \<rparr>"
  have sel: "getProps exampleServices ?p = Inr ?info"
    by (simp add: getProps_def getProps_result_def getWorkingNotebook_def
        getWorkingNotebook_toolCall_def mkRound_def mkTurn_def mkContext_def mkProps_def)
  have ren: "renderPromptElement ?ex (props ?info) = Inr [''summarize'']"
    by (simp add: exampleExecutor_def)
  have req: "makeChatRequest ?ex (stripInternalToolCallIds ?ex [''summarize''])
               = Inr (Inr (successResponse ''S1''))"
    by (simp add: exampleExecutor_def)
  have ok: "responseType (successResponse ''S1'') = Success"
    by (simp add: successResponse_def)
  have cnt: "countTokens ?ex (responseValue (successResponse ''S1'')) = Inr 2"
    by (simp add: exampleExecutor_def successResponse_def)
  have big: "(2::int) > tokenBudget ?ex"
    by (simp add: exampleExecutor_def)
  from summary_too_large [OF sel ren req ok cnt big] show ?thesis
    by (simp add: mkProps_def)
qed

section \<open>One report for each outcome\<close>

text \<open>The whole attempt on each path that follows a successful selection.\<close>

lemma summarizeHistory_render_failed:
  assumes "getProps sv p = Inr info"
    and "renderPromptElement ex (props info) = Inl e"
  shows "summarizeHistory sv ex p =
     \<lparr> returned = Inl e,
       events = [RenderPromptElement] @
         [SendTelemetry (sendSummarizationTelemetry p
            (if e = BudgetExceededError then ''budget_exceeded'' else ''renderError'') ''''
            (endpointModel p) None)],
       finalContext = promptContext p \<rparr>"
  using assms by (simp add: summarizeHistory_def Let_def)

lemma summarizeHistory_request_failed:
  assumes "getProps sv p = Inr info"
    and "renderPromptElement ex (props info) = Inr msgs"
    and "makeChatRequest ex (stripInternalToolCallIds ex msgs) = Inl e
         \<or> makeChatRequest ex (stripInternalToolCallIds ex msgs) = Inr (Inl e)"
  shows "\<exists>pre. telemetryEvents pre = [] \<and> patchCount pre = 0 \<and>
     summarizeHistory sv ex p =
     \<lparr> returned = Inl e,
       events = pre @
         [SendTelemetry (sendSummarizationTelemetry p ''requestThrow'' '''' (endpointModel p) None)],
       finalContext = promptContext p \<rparr>"
proof -
  let ?call = "[RenderPromptElement, MakeChatRequest (stripInternalToolCallIds ex msgs)]"
  let ?requested = "?call @ (if hasProgress ex then [ProgressReport] else [])"
  have quiet: "telemetryEvents ?call = []" "patchCount ?call = 0"
    "telemetryEvents ?requested = []" "patchCount ?requested = 0"
    by (simp_all add: telemetryEvents_def patchCount_def)
  from assms(3) show ?thesis
  proof
    assume "makeChatRequest ex (stripInternalToolCallIds ex msgs) = Inl e"
    with assms(1,2) quiet(1,2) show ?thesis
      by (intro exI [of _ ?call]) (simp add: summarizeHistory_def)
  next
    assume "makeChatRequest ex (stripInternalToolCallIds ex msgs) = Inr (Inl e)"
    with assms(1,2) quiet(3,4) show ?thesis
      by (intro exI [of _ ?requested]) (simp add: summarizeHistory_def Let_def)
  qed
qed

lemma summarizeHistory_upstream_failed:
  assumes "getProps sv p = Inr info"
    and "renderPromptElement ex (props info) = Inr msgs"
    and "makeChatRequest ex (stripInternalToolCallIds ex msgs) = Inr (Inr response)"
    and "responseType response \<noteq> Success"
  shows "summarizeHistory sv ex p =
     \<lparr> returned = Inl SummarizationFailed,
       events = ([RenderPromptElement, MakeChatRequest (stripInternalToolCallIds ex msgs)]
                 @ (if hasProgress ex then [ProgressReport] else [])) @
         [SendTelemetry (sendSummarizationTelemetry p
            (if responseType response = Failed then ''failed'' else typeString (responseType response))
            (requestId response) (endpointModel p) (reason response))],
       finalContext = promptContext p \<rparr>"
  using assms by (simp add: summarizeHistory_def Let_def)

lemma summarizeHistory_too_large:
  assumes "getProps sv p = Inr info"
    and "renderPromptElement ex (props info) = Inr msgs"
    and "makeChatRequest ex (stripInternalToolCallIds ex msgs) = Inr (Inr response)"
    and "responseType response = Success"
    and "countTokens ex (responseValue response) = Inr tokens"
    and "tokens > tokenBudget ex"
  shows "summarizeHistory sv ex p =
     \<lparr> returned = Inl SummaryTooLarge,
       events = ([RenderPromptElement, MakeChatRequest (stripInternalToolCallIds ex msgs)]
                 @ (if hasProgress ex then [ProgressReport] else [])) @
         [SendTelemetry (sendSummarizationTelemetry p ''too_large'' (requestId response)
            (endpointModel p) None)],
       finalContext = promptContext p \<rparr>"
  using assms by (simp add: summarizeHistory_def Let_def)

text \<open>The success path: the outcome is reported, then the summary is installed on the
  covered round of the context the attempt was given.\<close>

lemma summarizeHistory_success:
  assumes "getProps sv p = Inr info"
    and "renderPromptElement ex (props info) = Inr msgs"
    and "makeChatRequest ex (stripInternalToolCallIds ex msgs) = Inr (Inr response)"
    and "responseType response = Success"
    and "countTokens ex (responseValue response) = Inr tokens"
    and "\<not> tokens > tokenBudget ex"
  shows "summarizeHistory sv ex p =
     \<lparr> returned = Inr (Some (summarizedToolCallRoundId info, responseValue response)),
       events = ([RenderPromptElement, MakeChatRequest (stripInternalToolCallIds ex msgs)]
                 @ (if hasProgress ex then [ProgressReport] else [])) @
         [SendTelemetry (sendSummarizationTelemetry p ''success'' (requestId response)
            (endpointModel p) None),
          AddSummaryToHistory (responseValue response) (summarizedToolCallRoundId info)],
       finalContext = addSummaryToHistory (responseValue response)
                        (summarizedToolCallRoundId info) (promptContext p) \<rparr>"
  using assms by (simp add: summarizeHistory_def Let_def)

text \<open>A rejected token count leaves the attempt after the request and before any report.\<close>

lemma summarizeHistory_count_rejected:
  assumes "getProps sv p = Inr info"
    and "renderPromptElement ex (props info) = Inr msgs"
    and "makeChatRequest ex (stripInternalToolCallIds ex msgs) = Inr (Inr response)"
    and "responseType response = Success"
    and "countTokens ex (responseValue response) = Inl e"
  shows "returned (summarizeHistory sv ex p) = Inl e
       \<and> telemetryEvents (events (summarizeHistory sv ex p)) = []
       \<and> finalContext (summarizeHistory sv ex p) = promptContext p"
  using assms by (simp add: summarizeHistory_def Let_def telemetryEvents_def)

lemma requested_quiet:
  "telemetryEvents ([RenderPromptElement, MakeChatRequest ms] @ (if b then [ProgressReport] else [])) = []"
  "patchCount ([RenderPromptElement, MakeChatRequest ms] @ (if b then [ProgressReport] else [])) = 0"
  by (simp_all add: telemetryEvents_def patchCount_def)

lemma reportedLast_once: "reportedLast a t \<Longrightarrow> telemetryEvents (events a) = [t]"
  by (auto simp: reportedLast_def telemetryEvents_def)

lemma reportedBeforeInstall_once:
  "reportedBeforeInstall a t s x \<Longrightarrow> telemetryEvents (events a) = [t] \<and> patchCount (events a) = 1"
  by (auto simp: reportedBeforeInstall_def telemetryEvents_def patchCount_def)

text \<open>
  Two runs of the whole attempt. One prior turn with the round \<open>r1\<close> and no pending round:
  the summary lands on \<open>r1\<close>. Three pending rounds: the summary lands on \<open>p2\<close>, and \<open>p1\<close>
  and \<open>p3\<close> stay without one.
\<close>

lemma scenario_prior_turn:
  "returned (summarizeHistory exampleServices (exampleExecutor (Inr (successResponse ''S1'')) 10)
       (mkProps (mkContext [mkTurn [mkRound ''r1'' [] None]] (Some [])))) = Inr (Some (''r1'', ''S1''))
   \<and> finalContext (summarizeHistory exampleServices (exampleExecutor (Inr (successResponse ''S1'')) 10)
       (mkProps (mkContext [mkTurn [mkRound ''r1'' [] None]] (Some []))))
       = mkContext [mkTurn [mkRound ''r1'' [] (Some ''S1'')]] (Some [])"
  by (simp add: summarizeHistory_def getProps_def getProps_result_def getWorkingNotebook_def
      getWorkingNotebook_toolCall_def addSummaryToHistory_def exampleExecutor_def
      successResponse_def mkProps_def mkContext_def mkTurn_def mkRound_def)

lemma scenario_pending_rounds:
  "returned (summarizeHistory exampleServices (exampleExecutor (Inr (successResponse ''S1'')) 10)
       (mkProps (mkContext []
          (Some [mkRound ''p1'' [] None, mkRound ''p2'' [] None, mkRound ''p3'' [] None]))))
     = Inr (Some (''p2'', ''S1''))
   \<and> finalContext (summarizeHistory exampleServices (exampleExecutor (Inr (successResponse ''S1'')) 10)
       (mkProps (mkContext []
          (Some [mkRound ''p1'' [] None, mkRound ''p2'' [] None, mkRound ''p3'' [] None]))))
       = mkContext [] (Some [mkRound ''p1'' [] None, mkRound ''p2'' [] (Some ''S1''), mkRound ''p3'' [] None])"
  by (simp add: summarizeHistory_def getProps_def getProps_result_def getWorkingNotebook_def
      getWorkingNotebook_toolCall_def addSummaryToHistory_def exampleExecutor_def
      successResponse_def mkProps_def mkContext_def mkTurn_def mkRound_def isRunNotebookCell_def)

text \<open>
  C7, as the code has it. After a successful round selection, each exit path in the classes
  of the taxonomy (a render failure, over budget or not; a failed request; a non-success
  response; a summary over budget) and the success path sends exactly one telemetry event,
  tagged with the outcome of that path, before the error is thrown or the result returned:
  on a failure the event is the last effect and the context is untouched; on success only
  the installation of the summary follows it.
\<close>

theorem telemetry_once_per_outcome:
  assumes "getProps sv p = Inr info"
  shows
   "(\<forall>e. renderPromptElement ex (props info) = Inl e \<longrightarrow>
        returned (summarizeHistory sv ex p) = Inl e
      \<and> finalContext (summarizeHistory sv ex p) = promptContext p
      \<and> (\<exists>t. reportedLast (summarizeHistory sv ex p) t
            \<and> evOutcome t = (if e = BudgetExceededError then ''budget_exceeded'' else ''renderError'')
            \<and> evRequestId t = '''' \<and> evModel t = endpointModel p))
  \<and> (\<forall>msgs e. renderPromptElement ex (props info) = Inr msgs
        \<and> (makeChatRequest ex (stripInternalToolCallIds ex msgs) = Inl e
           \<or> makeChatRequest ex (stripInternalToolCallIds ex msgs) = Inr (Inl e)) \<longrightarrow>
        returned (summarizeHistory sv ex p) = Inl e
      \<and> finalContext (summarizeHistory sv ex p) = promptContext p
      \<and> (\<exists>t. reportedLast (summarizeHistory sv ex p) t
            \<and> evOutcome t = ''requestThrow''
            \<and> evRequestId t = '''' \<and> evModel t = endpointModel p))
  \<and> (\<forall>msgs r. renderPromptElement ex (props info) = Inr msgs
        \<and> makeChatRequest ex (stripInternalToolCallIds ex msgs) = Inr (Inr r)
        \<and> responseType r \<noteq> Success \<longrightarrow>
        returned (summarizeHistory sv ex p) = Inl SummarizationFailed
      \<and> finalContext (summarizeHistory sv ex p) = promptContext p
      \<and> (\<exists>t. reportedLast (summarizeHistory sv ex p) t
            \<and> evOutcome t = (if responseType r = Failed then ''failed'' else typeString (responseType r))
            \<and> evDetailedOutcome t = reason r
            \<and> evRequestId t = requestId r \<and> evModel t = endpointModel p))
  \<and> (\<forall>msgs r tokens. renderPromptElement ex (props info) = Inr msgs
        \<and> makeChatRequest ex (stripInternalToolCallIds ex msgs) = Inr (Inr r)
        \<and> responseType r = Success
        \<and> countTokens ex (responseValue r) = Inr tokens \<and> tokens > tokenBudget ex \<longrightarrow>
        returned (summarizeHistory sv ex p) = Inl SummaryTooLarge
      \<and> finalContext (summarizeHistory sv ex p) = promptContext p
      \<and> (\<exists>t. reportedLast (summarizeHistory sv ex p) t
            \<and> evOutcome t = ''too_large''
            \<and> evRequestId t = requestId r \<and> evModel t = endpointModel p))
  \<and> (\<forall>msgs r tokens. renderPromptElement ex (props info) = Inr msgs
        \<and> makeChatRequest ex (stripInternalToolCallIds ex msgs) = Inr (Inr r)
        \<and> responseType r = Success
        \<and> countTokens ex (responseValue r) = Inr tokens \<and> \<not> tokens > tokenBudget ex \<longrightarrow>
        returned (summarizeHistory sv ex p)
          = Inr (Some (summarizedToolCallRoundId info, responseValue r))
      \<and> (\<exists>t. reportedBeforeInstall (summarizeHistory sv ex p) t
                 (responseValue r) (summarizedToolCallRoundId info)
            \<and> evOutcome t = ''success''
            \<and> evRequestId t = requestId r \<and> evModel t = endpointModel p))"
proof (intro conjI allI impI)
  fix e
  assume "renderPromptElement ex (props info) = Inl e"
  note run = summarizeHistory_render_failed [OF assms this]
  show "returned (summarizeHistory sv ex p) = Inl e"
    and "finalContext (summarizeHistory sv ex p) = promptContext p"
    by (simp_all add: run)
  have "reportedLast (summarizeHistory sv ex p) (sendSummarizationTelemetry p
            (if e = BudgetExceededError then ''budget_exceeded'' else ''renderError'') ''''
            (endpointModel p) None)"
    unfolding reportedLast_def run
    by (intro exI [of _ "[RenderPromptElement]"]) (simp add: telemetryEvents_def patchCount_def)
  then show "\<exists>t. reportedLast (summarizeHistory sv ex p) t
            \<and> evOutcome t = (if e = BudgetExceededError then ''budget_exceeded'' else ''renderError'')
            \<and> evRequestId t = '''' \<and> evModel t = endpointModel p"
    by (intro exI [of _ "sendSummarizationTelemetry p
            (if e = BudgetExceededError then ''budget_exceeded'' else ''renderError'') ''''
            (endpointModel p) None"]) (simp add: sendSummarizationTelemetry_def)
next
  fix msgs e
  assume a: "renderPromptElement ex (props info) = Inr msgs
        \<and> (makeChatRequest ex (stripInternalToolCallIds ex msgs) = Inl e
           \<or> makeChatRequest ex (stripInternalToolCallIds ex msgs) = Inr (Inl e))"
  from a have "renderPromptElement ex (props info) = Inr msgs"
    and "makeChatRequest ex (stripInternalToolCallIds ex msgs) = Inl e
           \<or> makeChatRequest ex (stripInternalToolCallIds ex msgs) = Inr (Inl e)"
    by simp_all
  from summarizeHistory_request_failed [OF assms this] obtain pre where
    pre: "telemetryEvents pre = []" "patchCount pre = 0"
    and run: "summarizeHistory sv ex p =
     \<lparr> returned = Inl e,
       events = pre @
         [SendTelemetry (sendSummarizationTelemetry p ''requestThrow'' '''' (endpointModel p) None)],
       finalContext = promptContext p \<rparr>"
    by blast
  show "returned (summarizeHistory sv ex p) = Inl e"
    and "finalContext (summarizeHistory sv ex p) = promptContext p"
    by (simp_all add: run)
  have "reportedLast (summarizeHistory sv ex p)
          (sendSummarizationTelemetry p ''requestThrow'' '''' (endpointModel p) None)"
    unfolding reportedLast_def run using pre
    by (intro exI [of _ pre]) simp
  then show "\<exists>t. reportedLast (summarizeHistory sv ex p) t
            \<and> evOutcome t = ''requestThrow''
            \<and> evRequestId t = '''' \<and> evModel t = endpointModel p"
    by (intro exI [of _ "sendSummarizationTelemetry p ''requestThrow'' '''' (endpointModel p) None"])
       (simp add: sendSummarizationTelemetry_def)
next
  fix msgs r
  assume a: "renderPromptElement ex (props info) = Inr msgs
        \<and> makeChatRequest ex (stripInternalToolCallIds ex msgs) = Inr (Inr r)
        \<and> responseType r \<noteq> Success"
  then have run: "summarizeHistory sv ex p =
     \<lparr> returned = Inl SummarizationFailed,
       events = ([RenderPromptElement, MakeChatRequest (stripInternalToolCallIds ex msgs)]
                 @ (if hasProgress ex then [ProgressReport] else [])) @
         [SendTelemetry (sendSummarizationTelemetry p
            (if responseType r = Failed then ''failed'' else typeString (responseType r))
            (requestId r) (endpointModel p) (reason r))],
       finalContext = promptContext p \<rparr>"
    using summarizeHistory_upstream_failed [OF assms, of ex msgs r] by simp
  show "returned (summarizeHistory sv ex p) = Inl SummarizationFailed"
    and "finalContext (summarizeHistory sv ex p) = promptContext p"
    by (simp_all add: run)
  have "reportedLast (summarizeHistory sv ex p) (sendSummarizationTelemetry p
            (if responseType r = Failed then ''failed'' else typeString (responseType r))
            (requestId r) (endpointModel p) (reason r))"
    unfolding reportedLast_def run
    by (intro exI [of _ "[RenderPromptElement, MakeChatRequest (stripInternalToolCallIds ex msgs)]
                 @ (if hasProgress ex then [ProgressReport] else [])"])
       (simp only: requested_quiet simp_thms attempt.simps)
  then show "\<exists>t. reportedLast (summarizeHistory sv ex p) t
            \<and> evOutcome t = (if responseType r = Failed then ''failed'' else typeString (responseType r))
            \<and> evDetailedOutcome t = reason r
            \<and> evRequestId t = requestId r \<and> evModel t = endpointModel p"
    by (intro exI [of _ "sendSummarizationTelemetry p
            (if responseType r = Failed then ''failed'' else typeString (responseType r))
            (requestId r) (endpointModel p) (reason r)"])
       (simp add: sendSummarizationTelemetry_def)
next
  fix msgs r tokens
  assume a: "renderPromptElement ex (props info) = Inr msgs
        \<and> makeChatRequest ex (stripInternalToolCallIds ex msgs) = Inr (Inr r)
        \<and> responseType r = Success
        \<and> countTokens ex (responseValue r) = Inr tokens \<and> tokens > tokenBudget ex"
  then have run: "summarizeHistory sv ex p =
     \<lparr> returned = Inl SummaryTooLarge,
       events = ([RenderPromptElement, MakeChatRequest (stripInternalToolCallIds ex msgs)]
                 @ (if hasProgress ex then [ProgressReport] else [])) @
         [SendTelemetry (sendSummarizationTelemetry p ''too_large'' (requestId r)
            (endpointModel p) None)],
       finalContext = promptContext p \<rparr>"
    using summarizeHistory_too_large [OF assms, of ex msgs r tokens] by simp
  show "returned (summarizeHistory sv ex p) = Inl SummaryTooLarge"
    and "finalContext (summarizeHistory sv ex p) = promptContext p"
    by (simp_all add: run)
  have "reportedLast (summarizeHistory sv ex p)
          (sendSummarizationTelemetry p ''too_large'' (requestId r) (endpointModel p) None)"
    unfolding reportedLast_def run
    by (intro exI [of _ "[RenderPromptElement, MakeChatRequest (stripInternalToolCallIds ex msgs)]
                 @ (if hasProgress ex then [ProgressReport] else [])"])
       (simp only: requested_quiet simp_thms attempt.simps)
  then show "\<exists>t. reportedLast (summarizeHistory sv ex p) t
            \<and> evOutcome t = ''too_large''
            \<and> evRequestId t = requestId r \<and> evModel t = endpointModel p"
    by (intro exI [of _ "sendSummarizationTelemetry p ''too_large'' (requestId r) (endpointModel p) None"])
       (simp add: sendSummarizationTelemetry_def)
next
  fix msgs r tokens
  assume a: "renderPromptElement ex (props info) = Inr msgs
        \<and> makeChatRequest ex (stripInternalToolCallIds ex msgs) = Inr (Inr r)
        \<and> responseType r = Success
        \<and> countTokens ex (responseValue r) = Inr tokens \<and> \<not> tokens > tokenBudget ex"
  then have run: "summarizeHistory sv ex p =
     \<lparr> returned = Inr (Some (summarizedToolCallRoundId info, responseValue r)),
       events = ([RenderPromptElement, MakeChatRequest (stripInternalToolCallIds ex msgs)]
                 @ (if hasProgress ex then [ProgressReport] else [])) @
         [SendTelemetry (sendSummarizationTelemetry p ''success'' (requestId r)
            (endpointModel p) None),
          AddSummaryToHistory (responseValue r) (summarizedToolCallRoundId info)],
       finalContext = addSummaryToHistory (responseValue r)
                        (summarizedToolCallRoundId info) (promptContext p) \<rparr>"
    using summarizeHistory_success [OF assms, of ex msgs r tokens] by simp
  show "returned (summarizeHistory sv ex p)
          = Inr (Some (summarizedToolCallRoundId info, responseValue r))"
    by (simp add: run)
  have "reportedBeforeInstall (summarizeHistory sv ex p)
          (sendSummarizationTelemetry p ''success'' (requestId r) (endpointModel p) None)
          (responseValue r) (summarizedToolCallRoundId info)"
    unfolding reportedBeforeInstall_def run
    by (intro exI [of _ "[RenderPromptElement, MakeChatRequest (stripInternalToolCallIds ex msgs)]
                 @ (if hasProgress ex then [ProgressReport] else [])"])
       (simp only: requested_quiet simp_thms attempt.simps)
  then show "\<exists>t. reportedBeforeInstall (summarizeHistory sv ex p) t
                 (responseValue r) (summarizedToolCallRoundId info)
            \<and> evOutcome t = ''success''
            \<and> evRequestId t = requestId r \<and> evModel t = endpointModel p"
    by (intro exI [of _ "sendSummarizationTelemetry p ''success'' (requestId r) (endpointModel p) None"])
       (simp add: sendSummarizationTelemetry_def)
qed

theorem telemetry_once_per_outcome_witness:
  "returned (summarizeHistory exampleServices (exampleExecutor (Inr (successResponse ''S1'')) 1)
       (mkProps (mkContext [mkTurn [mkRound ''r1'' [] None]] (Some [])))) = Inl SummaryTooLarge
   \<and> (\<exists>t. telemetryEvents (events (summarizeHistory exampleServices
              (exampleExecutor (Inr (successResponse ''S1'')) 1)
              (mkProps (mkContext [mkTurn [mkRound ''r1'' [] None]] (Some []))))) = [t]
         \<and> evOutcome t = ''too_large'' \<and> evRequestId t = ''req-1'' \<and> evModel t = ''model-1'')
   \<and> returned (summarizeHistory exampleServices (exampleExecutor (Inr (successResponse ''S1'')) 10)
       (mkProps (mkContext [mkTurn [mkRound ''r1'' [] None]] (Some [])))) = Inr (Some (''r1'', ''S1''))
   \<and> (\<exists>t. telemetryEvents (events (summarizeHistory exampleServices
              (exampleExecutor (Inr (successResponse ''S1'')) 10)
              (mkProps (mkContext [mkTurn [mkRound ''r1'' [] None]] (Some []))))) = [t]
         \<and> evOutcome t = ''success'' \<and> evRequestId t = ''req-1'' \<and> evModel t = ''model-1'')"
proof -
  let ?p = "mkProps (mkContext [mkTurn [mkRound ''r1'' [] None]] (Some []))"
  let ?info = "\<lparr> props = ?p\<lparr> workingNotebook := None,
                      promptContext := (promptContext ?p)\<lparr> toolCallRounds := Some [],
                                                            isContinuation := True \<rparr> \<rparr>,
                  summarizedToolCallRoundId = ''r1'' \<rparr>"
  let ?r = "successResponse ''S1''"
  let ?small = "exampleExecutor (Inr ?r) 1"
  let ?large = "exampleExecutor (Inr ?r) 10"
  have sel: "getProps exampleServices ?p = Inr ?info"
    by (simp add: getProps_def getProps_result_def getWorkingNotebook_def
        getWorkingNotebook_toolCall_def mkRound_def mkTurn_def mkContext_def mkProps_def)
  have over: "renderPromptElement ?small (props ?info) = Inr [''summarize'']
        \<and> makeChatRequest ?small (stripInternalToolCallIds ?small [''summarize'']) = Inr (Inr ?r)
        \<and> responseType ?r = Success
        \<and> countTokens ?small (responseValue ?r) = Inr 2 \<and> 2 > tokenBudget ?small"
    by (simp add: exampleExecutor_def successResponse_def)
  have under: "renderPromptElement ?large (props ?info) = Inr [''summarize'']
        \<and> makeChatRequest ?large (stripInternalToolCallIds ?large [''summarize'']) = Inr (Inr ?r)
        \<and> responseType ?r = Success
        \<and> countTokens ?large (responseValue ?r) = Inr 2 \<and> \<not> 2 > tokenBudget ?large"
    by (simp add: exampleExecutor_def successResponse_def)
  have ids: "requestId ?r = ''req-1''" "endpointModel ?p = ''model-1''"
    "summarizedToolCallRoundId ?info = ''r1''" "responseValue ?r = ''S1''"
    by (simp_all add: successResponse_def mkProps_def)
  note too_large = telemetry_once_per_outcome [OF sel, of ?small,
      THEN conjunct2, THEN conjunct2, THEN conjunct2, THEN conjunct1, rule_format, OF over]
  note success = telemetry_once_per_outcome [OF sel, of ?large,
      THEN conjunct2, THEN conjunct2, THEN conjunct2, THEN conjunct2, rule_format, OF under]
  from too_large obtain t where t: "reportedLast (summarizeHistory exampleServices ?small ?p) t"
    "evOutcome t = ''too_large''" "evRequestId t = requestId ?r" "evModel t = endpointModel ?p"
    by (elim conjE exE)
  from success obtain u where u: "reportedBeforeInstall (summarizeHistory exampleServices ?large ?p) u
      (responseValue ?r) (summarizedToolCallRoundId ?info)"
    "evOutcome u = ''success''" "evRequestId u = requestId ?r" "evModel u = endpointModel ?p"
    by (elim conjE exE)
  have "\<exists>t. telemetryEvents (events (summarizeHistory exampleServices ?small ?p)) = [t]
         \<and> evOutcome t = ''too_large'' \<and> evRequestId t = ''req-1'' \<and> evModel t = ''model-1''"
    using reportedLast_once [OF t(1)] t(2-4) ids by (intro exI [of _ t]) simp
  moreover have "\<exists>t. telemetryEvents (events (summarizeHistory exampleServices ?large ?p)) = [t]
         \<and> evOutcome t = ''success'' \<and> evRequestId t = ''req-1'' \<and> evModel t = ''model-1''"
    using reportedBeforeInstall_once [OF u(1)] u(2-4) ids by (intro exI [of _ u]) simp
  moreover from too_large have "returned (summarizeHistory exampleServices ?small ?p) = Inl SummaryTooLarge"
    by (elim conjE)
  moreover from success ids have "returned (summarizeHistory exampleServices ?large ?p) = Inr (Some (''r1'', ''S1''))"
    by (elim conjE) simp
  ultimately show ?thesis by (intro conjI)
qed

text \<open>
  C7 as stated fails on the \<open>NothingToSummarize\<close> path: the error leaves
  \<open>summarizeHistory\<close> from the call of \<open>getProps\<close>, before any telemetry event is sent. An
  attempt also ends without a report when the token count of a successful response is
  rejected, an exit outside the classes of the taxonomy.
\<close>

theorem telemetry_nothing_to_summarize_counterexample:
  "returned (summarizeHistory exampleServices (exampleExecutor (Inr (successResponse ''S1'')) 10)
       (mkProps (mkContext [] None))) = Inl NothingToSummarize
   \<and> telemetryEvents (events (summarizeHistory exampleServices
       (exampleExecutor (Inr (successResponse ''S1'')) 10) (mkProps (mkContext [] None)))) = []
   \<and> returned (summarizeHistory exampleServices (rejectingCounter (Inr (successResponse ''S1'')))
       (mkProps (mkContext [mkTurn [mkRound ''r1'' [] None]] (Some []))))
       = Inl (OtherError ''tokenizer'')
   \<and> telemetryEvents (events (summarizeHistory exampleServices
       (rejectingCounter (Inr (successResponse ''S1'')))
       (mkProps (mkContext [mkTurn [mkRound ''r1'' [] None]] (Some []))))) = []"
  by (simp add: summarizeHistory_def getProps_def getProps_result_def getWorkingNotebook_def
      getWorkingNotebook_toolCall_def exampleExecutor_def rejectingCounter_def successResponse_def
      mkContext_def mkProps_def mkTurn_def mkRound_def telemetryEvents_def)

section \<open>The history patcher\<close>

lemma firstIndex_correct:
  assumes "x \<in> roundIds rs"
  shows "firstIndex x rs < length rs \<and> roundId (rs ! firstIndex x rs) = x"
  using assms by (induction rs) (auto simp: roundIds_def firstIndex_def)

lemma firstIndex_first: "j < firstIndex x rs \<Longrightarrow> roundId (rs ! j) \<noteq> x"
proof (induction rs arbitrary: j)
  case Nil
  then show ?case by (simp add: firstIndex_def)
next
  case (Cons r rs)
  then show ?case
    by (cases j) (auto simp: firstIndex_def split: if_splits)
qed

lemma setSummary_None: "setSummary s x rs = None \<longleftrightarrow> x \<notin> roundIds rs"
  by (induction rs) (auto simp: roundIds_def)

lemma setSummary_Some:
  "x \<in> roundIds rs \<Longrightarrow>
   setSummary s x rs = Some (rs[firstIndex x rs := (rs ! firstIndex x rs)\<lparr>summary := Some s\<rparr>])"
  by (induction rs) (auto simp: roundIds_def firstIndex_def)

lemma setSummary_again: "setSummary s x rs = Some rs' \<Longrightarrow> setSummary s x rs' = Some rs'"
  by (induction rs arbitrary: rs') (auto split: if_splits)

lemma setSummary_shape:
  "setSummary s x rs = Some rs' \<Longrightarrow>
   map (\<lambda>r. r\<lparr>summary := None\<rparr>) rs' = map (\<lambda>r. r\<lparr>summary := None\<rparr>) rs"
  by (induction rs arbitrary: rs') (auto split: if_splits)

lemma setSummary_SomeD: "setSummary s x rs = Some rs' \<Longrightarrow> x \<in> roundIds rs"
  using setSummary_None [of s x rs] by auto

lemma setSummaryInTurns_None:
  "setSummaryInTurns s x ts = None \<longleftrightarrow> (\<forall>t \<in> set ts. x \<notin> roundIds (rounds t))"
  by (induction ts) (auto simp: setSummary_None dest: setSummary_SomeD split: option.splits)

lemma setSummaryInTurns_Some:
  assumes "x \<in> roundIds (rounds t)" and "\<forall>u \<in> set newer. x \<notin> roundIds (rounds u)"
  shows "setSummaryInTurns s x (newer @ t # older) =
         Some (newer @ t\<lparr>rounds := (rounds t)[firstIndex x (rounds t) :=
                 (rounds t ! firstIndex x (rounds t))\<lparr>summary := Some s\<rparr>]\<rparr> # older)"
  using assms
proof (induction newer)
  case Nil
  then show ?case by (simp add: setSummary_Some)
next
  case (Cons u newer)
  then have "setSummary s x (rounds u) = None"
    by (simp add: setSummary_None)
  with Cons show ?case by simp
qed

lemma setSummaryInTurns_again:
  "setSummaryInTurns s x ts = Some ts' \<Longrightarrow> setSummaryInTurns s x ts' = Some ts'"
proof (induction ts arbitrary: ts')
  case Nil
  then show ?case by simp
next
  case (Cons t ts)
  show ?case
  proof (cases "setSummary s x (rounds t)")
    case None
    with Cons.prems obtain ts'' where "setSummaryInTurns s x ts = Some ts''" "ts' = t # ts''"
      by auto
    with None Cons.IH show ?thesis by simp
  next
    case (Some rs)
    with Cons.prems have "ts' = t\<lparr>rounds := rs\<rparr> # ts" by simp
    with setSummary_again [OF Some] show ?thesis by simp
  qed
qed

lemma setSummaryInTurns_shape:
  "setSummaryInTurns s x ts = Some ts' \<Longrightarrow>
   map (\<lambda>t. t\<lparr>rounds := map (\<lambda>r. r\<lparr>summary := None\<rparr>) (rounds t)\<rparr>) ts'
   = map (\<lambda>t. t\<lparr>rounds := map (\<lambda>r. r\<lparr>summary := None\<rparr>) (rounds t)\<rparr>) ts"
proof (induction ts arbitrary: ts')
  case Nil
  then show ?case by simp
next
  case (Cons t ts)
  show ?case
  proof (cases "setSummary s x (rounds t)")
    case None
    with Cons.prems obtain ts'' where "setSummaryInTurns s x ts = Some ts''" "ts' = t # ts''"
      by auto
    with Cons.IH show ?thesis by simp
  next
    case (Some rs)
    with Cons.prems have "ts' = t\<lparr>rounds := rs\<rparr> # ts" by simp
    with setSummary_shape [OF Some] show ?thesis by simp
  qed
qed

lemma addSummaryToHistory_pending:
  assumes "toolCallRounds c = Some rs" and "x \<in> roundIds rs"
  shows "addSummaryToHistory s x c =
         c\<lparr>toolCallRounds := Some (rs[firstIndex x rs := (rs ! firstIndex x rs)\<lparr>summary := Some s\<rparr>])\<rparr>"
  using assms by (simp add: addSummaryToHistory_def setSummary_Some)

lemma not_pending:
  "x \<notin> roundIds (pendingRounds c) \<Longrightarrow>
   (case toolCallRounds c of None \<Rightarrow> None | Some rs \<Rightarrow> setSummary s x rs) = None"
  by (auto simp: pendingRounds_def setSummary_None roundIds_def split: option.splits)

lemma addSummaryToHistory_history:
  assumes "x \<notin> roundIds (pendingRounds c)"
    and "history c = older @ [t] @ newer"
    and "x \<in> roundIds (rounds t)"
    and "\<forall>u \<in> set newer. x \<notin> roundIds (rounds u)"
  shows "addSummaryToHistory s x c =
         c\<lparr>history := older @ [t\<lparr>rounds := (rounds t)[firstIndex x (rounds t) :=
              (rounds t ! firstIndex x (rounds t))\<lparr>summary := Some s\<rparr>]\<rparr>] @ newer\<rparr>"
proof -
  have "rev (history c) = rev newer @ t # rev older"
    using assms(2) by simp
  moreover have "\<forall>u \<in> set (rev newer). x \<notin> roundIds (rounds u)"
    using assms(4) by simp
  ultimately have "setSummaryInTurns s x (rev (history c)) =
      Some (rev newer @ t\<lparr>rounds := (rounds t)[firstIndex x (rounds t) :=
              (rounds t ! firstIndex x (rounds t))\<lparr>summary := Some s\<rparr>]\<rparr> # rev older)"
    using setSummaryInTurns_Some [OF assms(3)] by simp
  with not_pending [OF assms(1)] show ?thesis
    by (simp add: addSummaryToHistory_def)
qed

lemma addSummaryToHistory_absent:
  assumes "x \<notin> roundIds (allRounds c)"
  shows "addSummaryToHistory s x c = c"
proof -
  from assms have p: "x \<notin> roundIds (pendingRounds c)"
    and h: "\<forall>t \<in> set (rev (history c)). x \<notin> roundIds (rounds t)"
    by (auto simp: allRounds_def roundIds_def)
  from h have "setSummaryInTurns s x (rev (history c)) = None"
    by (simp only: setSummaryInTurns_None)
  with not_pending [OF p] show ?thesis
    by (simp add: addSummaryToHistory_def)
qed

lemma addSummaryToHistory_idem:
  "addSummaryToHistory s x (addSummaryToHistory s x c) = addSummaryToHistory s x c"
proof (cases "case toolCallRounds c of None \<Rightarrow> None | Some rs \<Rightarrow> setSummary s x rs")
  case (Some rs')
  then obtain rs where "toolCallRounds c = Some rs" "setSummary s x rs = Some rs'"
    by (auto split: option.splits)
  with setSummary_again [of s x rs rs'] show ?thesis
    by (simp add: addSummaryToHistory_def)
next
  case None
  show ?thesis
  proof (cases "setSummaryInTurns s x (rev (history c))")
    case n: None
    with None show ?thesis by (simp add: addSummaryToHistory_def)
  next
    case (Some ts')
    with None have c': "addSummaryToHistory s x c = c\<lparr>history := rev ts'\<rparr>"
      by (simp add: addSummaryToHistory_def)
    from setSummaryInTurns_again [OF Some] None show ?thesis
      by (simp add: c') (simp add: addSummaryToHistory_def)
  qed
qed

lemma addSummaryToHistory_shape:
  "map (\<lambda>t. t\<lparr>rounds := map (\<lambda>r. r\<lparr>summary := None\<rparr>) (rounds t)\<rparr>) (history (addSummaryToHistory s x c))
     = map (\<lambda>t. t\<lparr>rounds := map (\<lambda>r. r\<lparr>summary := None\<rparr>) (rounds t)\<rparr>) (history c)
   \<and> map_option (map (\<lambda>r. r\<lparr>summary := None\<rparr>)) (toolCallRounds (addSummaryToHistory s x c))
     = map_option (map (\<lambda>r. r\<lparr>summary := None\<rparr>)) (toolCallRounds c)"
proof (cases "case toolCallRounds c of None \<Rightarrow> None | Some rs \<Rightarrow> setSummary s x rs")
  case (Some rs')
  then obtain rs where "toolCallRounds c = Some rs" "setSummary s x rs = Some rs'"
    by (auto split: option.splits)
  with setSummary_shape [of s x rs rs'] show ?thesis
    by (simp add: addSummaryToHistory_def)
next
  case None
  show ?thesis
  proof (cases "setSummaryInTurns s x (rev (history c))")
    case n: None
    with None show ?thesis by (simp add: addSummaryToHistory_def)
  next
    case (Some ts')
    from arg_cong [OF setSummaryInTurns_shape [OF Some], of rev]
    have "map (\<lambda>t. t\<lparr>rounds := map (\<lambda>r. r\<lparr>summary := None\<rparr>) (rounds t)\<rparr>) (rev ts')
        = map (\<lambda>t. t\<lparr>rounds := map (\<lambda>r. r\<lparr>summary := None\<rparr>) (rounds t)\<rparr>) (history c)"
      by (simp add: rev_map)
    with None Some show ?thesis
      by (simp add: addSummaryToHistory_def)
  qed
qed
text \<open>
  C6. \<open>addSummaryToHistory s x\<close> sets the summary of exactly one round and changes nothing
  else. If a pending round has id \<open>x\<close>, the first such round is the one rewritten.
  Otherwise, if some persisted turn has a round with id \<open>x\<close>, the newest such turn is
  chosen and the first round with that id in it is rewritten. If no round has id \<open>x\<close>, the
  context is returned as it is. In every case the history and the pending rounds keep their
  shape (the same turns and rounds in the same order, equal in every field but the
  summary), and installing the same summary a second time changes nothing more.
\<close>

theorem addSummaryToHistory_sets_one_round:
  "(\<forall>rs. toolCallRounds c = Some rs \<and> x \<in> roundIds rs \<longrightarrow>
       addSummaryToHistory s x c =
       c\<lparr>toolCallRounds := Some (rs[firstIndex x rs := (rs ! firstIndex x rs)\<lparr>summary := Some s\<rparr>])\<rparr>)
   \<and> (\<forall>older t newer.
        x \<notin> roundIds (pendingRounds c) \<and> history c = older @ [t] @ newer
        \<and> x \<in> roundIds (rounds t) \<and> (\<forall>u \<in> set newer. x \<notin> roundIds (rounds u)) \<longrightarrow>
        addSummaryToHistory s x c =
        c\<lparr>history := older @ [t\<lparr>rounds := (rounds t)[firstIndex x (rounds t) :=
             (rounds t ! firstIndex x (rounds t))\<lparr>summary := Some s\<rparr>]\<rparr>] @ newer\<rparr>)
   \<and> (x \<notin> roundIds (allRounds c) \<longrightarrow> addSummaryToHistory s x c = c)
   \<and> map (\<lambda>t. t\<lparr>rounds := map (\<lambda>r. r\<lparr>summary := None\<rparr>) (rounds t)\<rparr>) (history (addSummaryToHistory s x c))
       = map (\<lambda>t. t\<lparr>rounds := map (\<lambda>r. r\<lparr>summary := None\<rparr>) (rounds t)\<rparr>) (history c)
   \<and> map_option (map (\<lambda>r. r\<lparr>summary := None\<rparr>)) (toolCallRounds (addSummaryToHistory s x c))
       = map_option (map (\<lambda>r. r\<lparr>summary := None\<rparr>)) (toolCallRounds c)
   \<and> addSummaryToHistory s x (addSummaryToHistory s x c) = addSummaryToHistory s x c"
proof (intro conjI allI impI)
  fix rs
  assume "toolCallRounds c = Some rs \<and> x \<in> roundIds rs"
  then show "addSummaryToHistory s x c =
       c\<lparr>toolCallRounds := Some (rs[firstIndex x rs := (rs ! firstIndex x rs)\<lparr>summary := Some s\<rparr>])\<rparr>"
    by (simp add: addSummaryToHistory_pending)
next
  fix older t newer
  assume "x \<notin> roundIds (pendingRounds c) \<and> history c = older @ [t] @ newer
        \<and> x \<in> roundIds (rounds t) \<and> (\<forall>u \<in> set newer. x \<notin> roundIds (rounds u))"
  then show "addSummaryToHistory s x c =
        c\<lparr>history := older @ [t\<lparr>rounds := (rounds t)[firstIndex x (rounds t) :=
             (rounds t ! firstIndex x (rounds t))\<lparr>summary := Some s\<rparr>]\<rparr>] @ newer\<rparr>"
    using addSummaryToHistory_history [of x c older t newer s] by blast
next
  assume "x \<notin> roundIds (allRounds c)"
  then show "addSummaryToHistory s x c = c"
    by (rule addSummaryToHistory_absent)
next
  show "map (\<lambda>t. t\<lparr>rounds := map (\<lambda>r. r\<lparr>summary := None\<rparr>) (rounds t)\<rparr>) (history (addSummaryToHistory s x c))
       = map (\<lambda>t. t\<lparr>rounds := map (\<lambda>r. r\<lparr>summary := None\<rparr>) (rounds t)\<rparr>) (history c)"
    using addSummaryToHistory_shape [of s x c] by blast
next
  show "map_option (map (\<lambda>r. r\<lparr>summary := None\<rparr>)) (toolCallRounds (addSummaryToHistory s x c))
       = map_option (map (\<lambda>r. r\<lparr>summary := None\<rparr>)) (toolCallRounds c)"
    using addSummaryToHistory_shape [of s x c] by blast
next
  show "addSummaryToHistory s x (addSummaryToHistory s x c) = addSummaryToHistory s x c"
    by (rule addSummaryToHistory_idem)
qed

theorem addSummaryToHistory_sets_one_round_witness:
  "addSummaryToHistory ''S'' ''p2''
     (mkContext [mkTurn [mkRound ''p2'' [] None]]
        (Some [mkRound ''p1'' [] None, mkRound ''p2'' [] None, mkRound ''p3'' [] None]))
   = mkContext [mkTurn [mkRound ''p2'' [] None]]
        (Some [mkRound ''p1'' [] None, mkRound ''p2'' [] (Some ''S''), mkRound ''p3'' [] None])
   \<and> addSummaryToHistory ''S1'' ''r1''
       (mkContext [mkTurn [mkRound ''r1'' [] None], mkTurn [mkRound ''r0'' [] None, mkRound ''r1'' [] None]]
          (Some [mkRound ''p1'' [] None]))
     = mkContext [mkTurn [mkRound ''r1'' [] None], mkTurn [mkRound ''r0'' [] None, mkRound ''r1'' [] (Some ''S1'')]]
          (Some [mkRound ''p1'' [] None])
   \<and> addSummaryToHistory ''S1'' ''zz'' (mkContext [mkTurn [mkRound ''r1'' [] None]] None)
     = mkContext [mkTurn [mkRound ''r1'' [] None]] None"
proof (intro conjI)
  let ?rs = "[mkRound ''p1'' [] None, mkRound ''p2'' [] None, mkRound ''p3'' [] None]"
  let ?c1 = "mkContext [mkTurn [mkRound ''p2'' [] None]] (Some ?rs)"
  have "toolCallRounds ?c1 = Some ?rs \<and> ''p2'' \<in> roundIds ?rs"
    by (simp add: mkContext_def mkRound_def roundIds_def)
  with addSummaryToHistory_sets_one_round [of ?c1 "''p2''" "''S''"]
  have "addSummaryToHistory ''S'' ''p2'' ?c1 =
       ?c1\<lparr>toolCallRounds := Some (?rs[firstIndex ''p2'' ?rs := (?rs ! firstIndex ''p2'' ?rs)\<lparr>summary := Some ''S''\<rparr>])\<rparr>"
    by blast
  then show "addSummaryToHistory ''S'' ''p2'' ?c1
     = mkContext [mkTurn [mkRound ''p2'' [] None]]
        (Some [mkRound ''p1'' [] None, mkRound ''p2'' [] (Some ''S''), mkRound ''p3'' [] None])"
    by (simp add: mkContext_def mkRound_def firstIndex_def)
next
  let ?t = "mkTurn [mkRound ''r0'' [] None, mkRound ''r1'' [] None]"
  let ?older = "[mkTurn [mkRound ''r1'' [] None]]"
  let ?c2 = "mkContext [mkTurn [mkRound ''r1'' [] None], ?t] (Some [mkRound ''p1'' [] None])"
  have "''r1'' \<notin> roundIds (pendingRounds ?c2) \<and> history ?c2 = ?older @ [?t] @ []
        \<and> ''r1'' \<in> roundIds (rounds ?t) \<and> (\<forall>u \<in> set []. ''r1'' \<notin> roundIds (rounds u))"
    by (simp add: mkContext_def mkRound_def mkTurn_def roundIds_def pendingRounds_def)
  with addSummaryToHistory_sets_one_round [of ?c2 "''r1''" "''S1''"]
  have "addSummaryToHistory ''S1'' ''r1'' ?c2 =
        ?c2\<lparr>history := ?older @ [?t\<lparr>rounds := (rounds ?t)[firstIndex ''r1'' (rounds ?t) :=
             (rounds ?t ! firstIndex ''r1'' (rounds ?t))\<lparr>summary := Some ''S1''\<rparr>]\<rparr>] @ []\<rparr>"
    by blast
  then show "addSummaryToHistory ''S1'' ''r1'' ?c2
     = mkContext [mkTurn [mkRound ''r1'' [] None], mkTurn [mkRound ''r0'' [] None, mkRound ''r1'' [] (Some ''S1'')]]
          (Some [mkRound ''p1'' [] None])"
    by (simp add: mkContext_def mkRound_def mkTurn_def firstIndex_def)
next
  let ?c3 = "mkContext [mkTurn [mkRound ''r1'' [] None]] None"
  have "''zz'' \<notin> roundIds (allRounds ?c3)"
    by (simp add: mkContext_def mkRound_def mkTurn_def roundIds_def allRounds_def pendingRounds_def)
  with addSummaryToHistory_sets_one_round [of ?c3 "''zz''" "''S1''"]
  show "addSummaryToHistory ''S1'' ''zz'' ?c3 = ?c3"
    by blast
qed

section \<open>The request builder\<close>

lemma summarizedMetadata_None: "summarizedMetadata r = None \<longleftrightarrow> \<not> hasSummary r"
  by (cases "summary r") (simp_all add: summarizedMetadata_def hasSummary_def)

lemma summarizedMetadata_text:
  "summarizedMetadata r = Some m \<longleftrightarrow> m = (roundId r, snd m) \<and> summary r = Some (snd m) \<and> snd m \<noteq> []"
  by (cases "summary r") (auto simp: summarizedMetadata_def)

text \<open>The backward loop pushes the rounds newer than the latest summarized one.\<close>

lemma collectRounds_snd:
  "snd (collectRounds xs pushed) = pushed @ takeWhile (\<lambda>r. \<not> hasSummary r) xs"
  by (induction xs arbitrary: pushed)
     (auto simp: summarizedMetadata_None [symmetric] split: option.splits)

lemma collectRounds_fst_None:
  "fst (collectRounds xs pushed) = None \<longleftrightarrow> (\<forall>r \<in> set xs. \<not> hasSummary r)"
  by (induction xs arbitrary: pushed)
     (auto simp: summarizedMetadata_None [symmetric] split: option.splits)

lemma collectRounds_fst_Some:
  assumes "hasSummary r" and "\<forall>q \<in> set newer. \<not> hasSummary q"
  shows "fst (collectRounds (newer @ r # older) pushed) = summarizedMetadata r"
  using assms
proof (induction newer arbitrary: pushed)
  case Nil
  then show ?case
    by (cases "summarizedMetadata r") (simp_all add: summarizedMetadata_None)
next
  case (Cons q newer)
  then have "summarizedMetadata q = None"
    by (simp add: summarizedMetadata_None)
  with Cons show ?case by simp
qed

lemma map_entries: "map (\<lambda>e. f (snd e)) (enumerate n h) = map f h"
  by (induction h arbitrary: n) simp_all

lemma backwards_entries: "backwards (rev (enumerate n h)) = rev (concat (map rounds h))"
proof -
  have "map (\<lambda>e. rev (rounds (snd e))) (rev (enumerate n h))
        = rev (map (\<lambda>e. rev (rounds (snd e))) (enumerate n h))"
    by (simp add: rev_map)
  also have "\<dots> = rev (map (\<lambda>t. rev (rounds t)) h)"
    using map_entries [of "\<lambda>t. rev (rounds t)" n h] by simp
  also have "\<dots> = map rev (rev (map rounds h))"
    by (simp add: rev_map comp_def)
  finally show ?thesis
    by (simp only: backwards_def rev_concat)
qed
lemma collectRounds_fst:
  "fst (collectRounds xs pushed) =
     (case find hasSummary xs of None \<Rightarrow> None | Some r \<Rightarrow> summarizedMetadata r)"
proof (induction xs arbitrary: pushed)
  case Nil
  then show ?case by simp
next
  case (Cons r xs)
  show ?case
  proof (cases "hasSummary r")
    case True
    then obtain m where "summarizedMetadata r = Some m"
      using summarizedMetadata_None [of r] by auto
    with True show ?thesis by simp
  next
    case False
    then have "summarizedMetadata r = None"
      by (simp add: summarizedMetadata_None)
    with False Cons.IH show ?thesis by simp
  qed
qed

lemma collectRounds_text:
  "(case fst (collectRounds xs pushed) of None \<Rightarrow> [] | Some m \<Rightarrow> [snd m]) = latestSummaryText xs"
proof (cases "find hasSummary xs")
  case None
  then show ?thesis by (simp add: collectRounds_fst latestSummaryText_def)
next
  case (Some r)
  then have "hasSummary r" by (auto simp: find_Some_iff)
  then obtain m where m: "summarizedMetadata r = Some m"
    using summarizedMetadata_None [of r] by auto
  then have "summary r = Some (snd m)"
    by (simp add: summarizedMetadata_text)
  with Some m show ?thesis
    by (simp add: collectRounds_fst latestSummaryText_def)
qed

lemma find_append_rounds:
  "find P (xs @ ys) = (case find P xs of None \<Rightarrow> find P ys | Some x \<Rightarrow> Some x)"
  by (induction xs) simp_all

lemma latestSummaryText_append:
  "latestSummaryText (xs @ ys) =
     (if \<forall>r \<in> set xs. \<not> hasSummary r then latestSummaryText ys else latestSummaryText xs)"
proof (cases "find hasSummary xs")
  case None
  then have "\<forall>r \<in> set xs. \<not> hasSummary r"
    by (simp add: find_None_iff)
  with None show ?thesis
    by (simp add: latestSummaryText_def find_append_rounds)
next
  case (Some r)
  then have "\<not> (\<forall>r \<in> set xs. \<not> hasSummary r)"
    by (auto simp: find_Some_iff)
  with Some show ?thesis
    by (auto simp: latestSummaryText_def find_append_rounds)
qed

lemma latestSummaryText_none: "\<forall>r \<in> set xs. \<not> hasSummary r \<Longrightarrow> latestSummaryText xs = []"
  by (simp add: latestSummaryText_def find_None_iff [THEN iffD2])

lemma takeWhile_append_rounds:
  "takeWhile P (xs @ ys) = (if \<forall>x \<in> set xs. P x then xs @ takeWhile P ys else takeWhile P xs)"
  by (induction xs) auto

lemma takeWhile_all: "\<forall>x \<in> set xs. P x \<Longrightarrow> takeWhile P xs = xs"
  by (simp add: takeWhile_eq_all_conv)

lemma verbatimRounds_simps:
  "verbatimRounds [] = []"
  "verbatimRounds (e # es) = elementRounds e @ verbatimRounds es"
  "verbatimRounds (es @ fs) = verbatimRounds es @ verbatimRounds fs"
  by (simp_all add: verbatimRounds_def)

lemma summaryTexts_simps:
  "summaryTexts [] = []"
  "summaryTexts (e # es) = elementSummary e @ summaryTexts es"
  "summaryTexts (es @ fs) = summaryTexts es @ summaryTexts fs"
  by (simp_all add: summaryTexts_def)

lemma renderTurns_rounds:
  "verbatimRounds (rev (renderTurns ctx es pushed)) =
     rev (takeWhile (\<lambda>r. \<not> hasSummary r) (backwards es)) @ verbatimRounds (rev pushed)"
proof (induction es arbitrary: pushed)
  case Nil
  then show ?case by (simp add: backwards_def)
next
  case (Cons e es)
  obtain i turn where e: "e = (i, turn)" by (cases e)
  have b: "backwards (e # es) = rev (rounds turn) @ backwards es"
    by (simp add: backwards_def e)
  show ?case
  proof (cases "\<forall>r \<in> set (rounds turn). \<not> hasSummary r")
    case True
    then have "fst (collectRounds (rev (rounds turn)) []) = None"
      by (simp add: collectRounds_fst_None)
    with True show ?thesis
      unfolding e b [unfolded e]
      by (simp add: Let_def Cons.IH collectRounds_snd takeWhile_append_rounds takeWhile_all
          verbatimRounds_simps)
  next
    case False
    then obtain m where "fst (collectRounds (rev (rounds turn)) []) = Some m"
      using collectRounds_fst_None [of "rev (rounds turn)" "[]"] by auto
    with False show ?thesis
      unfolding e b [unfolded e]
      by (auto simp: Let_def collectRounds_snd takeWhile_append_rounds verbatimRounds_simps)
  qed
qed

lemma renderTurns_texts:
  "summaryTexts (rev (renderTurns ctx es pushed)) =
     latestSummaryText (backwards es) @ summaryTexts (rev pushed)"
proof (induction es arbitrary: pushed)
  case Nil
  then show ?case by (simp add: backwards_def latestSummaryText_def)
next
  case (Cons e es)
  obtain i turn where e: "e = (i, turn)" by (cases e)
  have b: "backwards (e # es) = rev (rounds turn) @ backwards es"
    by (simp add: backwards_def e)
  show ?case
  proof (cases "\<forall>r \<in> set (rounds turn). \<not> hasSummary r")
    case True
    then have "fst (collectRounds (rev (rounds turn)) []) = None"
      by (simp add: collectRounds_fst_None)
    with True show ?thesis
      unfolding e b [unfolded e]
      by (simp add: Let_def Cons.IH latestSummaryText_append summaryTexts_simps split: option.splits)
  next
    case False
    then obtain m where m: "fst (collectRounds (rev (rounds turn)) []) = Some m"
      using collectRounds_fst_None [of "rev (rounds turn)" "[]"] by auto
    with collectRounds_text [of "rev (rounds turn)" "[]"]
    have "latestSummaryText (rev (rounds turn)) = [snd m]" by simp
    with False m show ?thesis
      unfolding e b [unfolded e]
      by (auto simp: Let_def latestSummaryText_append summaryTexts_simps)
  qed
qed
text \<open>
  What the builder shows: verbatim, the rounds newer than the newest summarized round, in
  chronological order; and the text of that round, if there is one.
\<close>

lemma render_rounds:
  "verbatimRounds (render ctx) = rev (takeWhile (\<lambda>r. \<not> hasSummary r) (rev (allRounds ctx)))"
proof (cases "pendingRounds ctx = []")
  case True
  then have "(case toolCallRounds ctx of None \<Rightarrow> (None, [])
              | Some rs \<Rightarrow> if length rs \<noteq> 0
                  then (let collected = collectRounds (rev rs) []
                        in (fst collected, [ChatToolCalls (rev (snd collected)) (toolCallResults ctx) None]))
                  else (None, [])) = (None, [])"
    by (auto simp: pendingRounds_def split: option.splits)
  then show ?thesis
    using True
    by (simp add: render_def Let_def renderTurns_rounds backwards_entries allRounds_def
        verbatimRounds_simps)
next
  case False
  then obtain rs where rs: "toolCallRounds ctx = Some rs" "rs \<noteq> []" "pendingRounds ctx = rs"
    by (auto simp: pendingRounds_def split: option.splits)
  show ?thesis
  proof (cases "\<forall>r \<in> set rs. \<not> hasSummary r")
    case True
    then have "fst (collectRounds (rev rs) []) = None"
      by (simp add: collectRounds_fst_None)
    with True rs show ?thesis
      by (simp add: render_def Let_def renderTurns_rounds backwards_entries allRounds_def
          verbatimRounds_simps collectRounds_snd takeWhile_append_rounds takeWhile_all)
  next
    case False
    then obtain m where "fst (collectRounds (rev rs) []) = Some m"
      using collectRounds_fst_None [of "rev rs" "[]"] by auto
    with False rs show ?thesis
      by (auto simp: render_def Let_def allRounds_def verbatimRounds_simps collectRounds_snd
          takeWhile_append_rounds)
  qed
qed

lemma render_texts: "summaryTexts (render ctx) = latestSummaryText (rev (allRounds ctx))"
proof (cases "pendingRounds ctx = []")
  case True
  then have "(case toolCallRounds ctx of None \<Rightarrow> (None, [])
              | Some rs \<Rightarrow> if length rs \<noteq> 0
                  then (let collected = collectRounds (rev rs) []
                        in (fst collected, [ChatToolCalls (rev (snd collected)) (toolCallResults ctx) None]))
                  else (None, [])) = (None, [])"
    by (auto simp: pendingRounds_def split: option.splits)
  then show ?thesis
    using True
    by (simp add: render_def Let_def renderTurns_texts backwards_entries allRounds_def
        summaryTexts_simps)
next
  case False
  then obtain rs where rs: "toolCallRounds ctx = Some rs" "rs \<noteq> []" "pendingRounds ctx = rs"
    by (auto simp: pendingRounds_def split: option.splits)
  show ?thesis
  proof (cases "\<forall>r \<in> set rs. \<not> hasSummary r")
    case True
    then have "fst (collectRounds (rev rs) []) = None"
      by (simp add: collectRounds_fst_None)
    with True rs show ?thesis
      by (simp add: render_def Let_def renderTurns_texts backwards_entries allRounds_def
          summaryTexts_simps latestSummaryText_append)
  next
    case False
    then obtain m where m: "fst (collectRounds (rev rs) []) = Some m"
      using collectRounds_fst_None [of "rev rs" "[]"] by auto
    with collectRounds_text [of "rev rs" "[]"]
    have "latestSummaryText (rev rs) = [snd m]" by simp
    with False rs m show ?thesis
      by (auto simp: render_def Let_def allRounds_def summaryTexts_simps latestSummaryText_append)
  qed
qed

text \<open>A list with a summarized round splits at its newest summarized round.\<close>

lemma split_at_latest_summary:
  assumes "\<exists>r \<in> set xs. hasSummary r"
  shows "\<exists>before r after shown.
           xs = before @ [r] @ after \<and> summary r = Some shown \<and> shown \<noteq> []
           \<and> (\<forall>q \<in> set after. \<not> hasSummary q)
           \<and> rev (takeWhile (\<lambda>r. \<not> hasSummary r) (rev xs)) = after
           \<and> latestSummaryText (rev xs) = [shown]"
proof -
  from split_list_last_prop [OF assms] obtain before r after where
    xs: "xs = before @ r # after" and r: "hasSummary r"
    and rest: "\<forall>q \<in> set after. \<not> hasSummary q"
    by blast
  from r obtain shown where shown: "summary r = Some shown" "shown \<noteq> []"
    by (cases "summary r") (auto simp: hasSummary_def)
  have "rev (takeWhile (\<lambda>r. \<not> hasSummary r) (rev xs)) = after"
    using r rest by (simp add: xs takeWhile_append_rounds takeWhile_all)
  moreover have "find hasSummary (rev after) = None"
    using rest by (simp add: find_None_iff)
  then have "latestSummaryText (rev xs) = [shown]"
    using r shown by (simp add: xs latestSummaryText_def find_append_rounds)
  ultimately show ?thesis
    using xs shown rest by auto
qed

text \<open>Where the patcher writes, in the chronological list of all rounds.\<close>

lemma indexInTurns_None:
  "indexInTurns x h = None \<longleftrightarrow> (\<forall>t \<in> set h. x \<notin> roundIds (rounds t))"
proof (induction h)
  case Nil
  then show ?case by simp
next
  case (Cons t h)
  show ?case
  proof (cases "indexInTurns x h")
    case None
    with Cons.IH have "\<forall>u \<in> set h. x \<notin> roundIds (rounds u)" by simp
    with None show ?thesis by simp
  next
    case (Some j)
    with Cons.IH have "\<not> (\<forall>u \<in> set h. x \<notin> roundIds (rounds u))" by simp
    with Some show ?thesis by auto
  qed
qed

lemma indexInTurns_Some:
  "indexInTurns x h = Some i \<Longrightarrow>
     \<exists>older t newer. h = older @ t # newer \<and> x \<in> roundIds (rounds t)
       \<and> (\<forall>u \<in> set newer. x \<notin> roundIds (rounds u))
       \<and> i = length (concat (map rounds older)) + firstIndex x (rounds t)"
proof (induction h arbitrary: i)
  case Nil
  then show ?case by simp
next
  case (Cons t h)
  show ?case
  proof (cases "indexInTurns x h")
    case None
    with Cons.prems have t: "x \<in> roundIds (rounds t)" and i: "i = firstIndex x (rounds t)"
      by (auto split: if_splits)
    from None have "\<forall>u \<in> set h. x \<notin> roundIds (rounds u)"
      by (simp add: indexInTurns_None)
    with t i show ?thesis
      by (intro exI [of _ "[]"] exI [of _ t] exI [of _ h]) simp
  next
    case (Some j)
    with Cons.prems have i: "i = length (rounds t) + j" by simp
    from Cons.IH [OF Some] obtain older t' newer where
      "h = older @ t' # newer" "x \<in> roundIds (rounds t')"
      "\<forall>u \<in> set newer. x \<notin> roundIds (rounds u)"
      "j = length (concat (map rounds older)) + firstIndex x (rounds t')"
      by blast
    with i show ?thesis
      by (intro exI [of _ "t # older"] exI [of _ t'] exI [of _ newer]) simp
  qed
qed

lemma patchedIndex_None: "patchedIndex x c = None \<longleftrightarrow> x \<notin> roundIds (allRounds c)"
proof (cases "x \<in> roundIds (pendingRounds c)")
  case True
  then show ?thesis
    by (simp add: patchedIndex_def allRounds_def roundIds_def)
next
  case False
  then show ?thesis
    by (simp add: patchedIndex_def indexInTurns_None allRounds_def roundIds_def) blast
qed

lemma patchedIndex_Some:
  assumes "patchedIndex x c = Some p"
  shows "p < length (allRounds c) \<and> roundId (allRounds c ! p) = x
       \<and> allRounds (addSummaryToHistory s x c)
           = (allRounds c)[p := (allRounds c ! p)\<lparr>summary := Some s\<rparr>]"
proof (cases "x \<in> roundIds (pendingRounds c)")
  case True
  then obtain rs where rs: "toolCallRounds c = Some rs" "x \<in> roundIds rs"
    by (cases "toolCallRounds c") (auto simp: pendingRounds_def roundIds_def)
  let ?H = "concat (map rounds (history c))"
  let ?i = "firstIndex x rs"
  from rs(1) have pend: "pendingRounds c = rs"
    by (simp add: pendingRounds_def)
  from assms True have p: "p = length ?H + ?i"
    by (simp add: patchedIndex_def pend)
  from firstIndex_correct [OF rs(2)] have i: "?i < length rs" "roundId (rs ! ?i) = x"
    by simp_all
  have A: "allRounds c = ?H @ rs"
    by (simp add: allRounds_def pend)
  have "allRounds (addSummaryToHistory s x c) = ?H @ rs[?i := (rs ! ?i)\<lparr>summary := Some s\<rparr>]"
    using rs by (simp add: addSummaryToHistory_pending allRounds_def pendingRounds_def)
  with i A show ?thesis
    by (simp add: p list_update_append nth_append)
next
  case False
  with assms have "indexInTurns x (history c) = Some p"
    by (simp add: patchedIndex_def)
  from indexInTurns_Some [OF this] obtain older t newer where
    h: "history c = older @ t # newer" and t: "x \<in> roundIds (rounds t)"
    and newer: "\<forall>u \<in> set newer. x \<notin> roundIds (rounds u)"
    and p: "p = length (concat (map rounds older)) + firstIndex x (rounds t)"
    by blast
  let ?O = "concat (map rounds older)"
  let ?N = "concat (map rounds newer) @ pendingRounds c"
  let ?i = "firstIndex x (rounds t)"
  from firstIndex_correct [OF t] have i: "?i < length (rounds t)" "roundId (rounds t ! ?i) = x"
    by simp_all
  have A: "allRounds c = ?O @ rounds t @ ?N"
    by (simp add: allRounds_def h)
  from h have "history c = older @ [t] @ newer" by simp
  from addSummaryToHistory_history [OF False this t newer, of s]
  have "allRounds (addSummaryToHistory s x c)
        = ?O @ (rounds t)[?i := (rounds t ! ?i)\<lparr>summary := Some s\<rparr>] @ ?N"
    by (simp add: allRounds_def pendingRounds_def)
  with i A show ?thesis
    by (simp add: p list_update_append nth_append)
qed

text \<open>What selection keeps: the history and the pending rounds without the last one, or the
  history alone; in both cases a prefix of the chronological list of all rounds.\<close>

lemma getProps_selected:
  assumes "getProps sv q = Inr info"
  shows "allRounds (promptContext (props info))
           = take (length (allRounds (promptContext (props info)))) (allRounds (promptContext q))"
proof -
  let ?H = "concat (map rounds (history (promptContext q)))"
  obtain nb where nb: "getWorkingNotebook sv q = Inr nb"
    using getWorkingNotebook_total by blast
  show ?thesis
  proof (cases "case toolCallRounds (promptContext q) of None \<Rightarrow> False | Some rs \<Rightarrow> length rs > 1")
    case True
    then obtain rs where rs: "toolCallRounds (promptContext q) = Some rs" "length rs > 1"
      by (auto split: option.splits)
    then have ne: "butlast rs \<noteq> []"
      by (cases rs) auto
    with assms rs nb have "allRounds (promptContext (props info)) = ?H @ butlast rs"
      by (auto simp: getProps_def getProps_result_def at_last_eq Let_def allRounds_def
          pendingRounds_def)
    moreover have "allRounds (promptContext q) = ?H @ rs"
      using rs by (simp add: allRounds_def pendingRounds_def)
    moreover have "take (length (?H @ butlast rs)) (?H @ rs) = ?H @ butlast rs"
      by (simp add: butlast_conv_take)
    ultimately show ?thesis by simp
  next
    case False
    with assms nb have "allRounds (promptContext (props info)) = ?H"
      by (auto simp: getProps_def getProps_result_def at_last_eq Let_def allRounds_def
          pendingRounds_def split: if_splits option.splits)
    then show ?thesis
      by (simp add: allRounds_def)
  qed
qed

text \<open>The builder on any context with a summarized round at position \<open>p\<close>: that round and
  every round before it are left out.\<close>

lemma render_excludes:
  assumes "p < length (allRounds d)" and "hasSummary (allRounds d ! p)"
  shows "\<exists>before r after shown.
      allRounds d = before @ [r] @ after
    \<and> p \<le> length before
    \<and> summary r = Some shown \<and> shown \<noteq> []
    \<and> (\<forall>u \<in> set after. \<not> hasSummary u)
    \<and> verbatimRounds (render d) = after
    \<and> summaryTexts (render d) = [shown]
    \<and> ((\<forall>u \<in> set (drop (Suc p) (allRounds d)). \<not> hasSummary u)
         \<longrightarrow> length before = p \<and> r = allRounds d ! p)"
proof -
  let ?A = "allRounds d"
  have "\<exists>r \<in> set ?A. hasSummary r"
    using assms nth_mem [of p ?A] by auto
  from split_at_latest_summary [OF this] obtain before r after shown where
    split: "?A = before @ [r] @ after" and shown: "summary r = Some shown" "shown \<noteq> []"
    and rest: "\<forall>u \<in> set after. \<not> hasSummary u"
    and vr: "rev (takeWhile (\<lambda>r. \<not> hasSummary r) (rev ?A)) = after"
    and lt: "latestSummaryText (rev ?A) = [shown]"
    by blast
  from arg_cong [OF split, of length] have L: "length ?A = Suc (length before + length after)"
    by simp
  from split have r_at: "?A ! length before = r"
    by simp
  have p_le: "p \<le> length before"
  proof (rule ccontr)
    assume "\<not> p \<le> length before"
    then have gt: "length before < p" by simp
    then have "(before @ [r] @ after) ! p = after ! (p - Suc (length before))"
      by (simp add: nth_append)
    with split have "?A ! p = after ! (p - Suc (length before))"
      by simp
    moreover from gt assms(1) L have "p - Suc (length before) < length after"
      by arith
    ultimately have "?A ! p \<in> set after" by simp
    with rest assms(2) show False by blast
  qed
  have last_part: "length before = p \<and> r = ?A ! p"
    if none: "\<forall>u \<in> set (drop (Suc p) ?A). \<not> hasSummary u"
  proof -
    have eq: "length before = p"
    proof (rule ccontr)
      assume "length before \<noteq> p"
      with p_le have gt: "p < length before" by simp
      from L have lb: "length before < length ?A" by arith
      have "?A ! length before \<in> set (drop (Suc p) ?A)"
      proof -
        from gt have "Suc p + (length before - Suc p) = length before"
          by arith
        with lb have "drop (Suc p) ?A ! (length before - Suc p) = ?A ! length before"
          by (simp only: nth_drop)
        moreover from gt lb have "length before - Suc p < length (drop (Suc p) ?A)"
          by simp
        ultimately show ?thesis
          using nth_mem [of "length before - Suc p" "drop (Suc p) ?A"] by simp
      qed
      with none have "\<not> hasSummary (?A ! length before)" by blast
      then have "\<not> hasSummary r" by (simp only: r_at not_False_eq_True)
      with shown show False by (simp add: hasSummary_def)
    qed
    with r_at show ?thesis by simp
  qed
  show ?thesis
  proof (intro exI conjI)
    show "allRounds d = before @ [r] @ after" by (rule split)
    show "p \<le> length before" by (rule p_le)
    show "summary r = Some shown" by (rule shown(1))
    show "shown \<noteq> []" by (rule shown(2))
    show "\<forall>u \<in> set after. \<not> hasSummary u" by (rule rest)
    show "verbatimRounds (render d) = after" using vr by (simp only: render_rounds)
    show "summaryTexts (render d) = [shown]" using lt by (simp only: render_texts)
    show "(\<forall>u \<in> set (drop (Suc p) (allRounds d)). \<not> hasSummary u)
            \<longrightarrow> length before = p \<and> r = allRounds d ! p"
      using last_part by blast
  qed
qed
text \<open>
  The round the executor itself installs a summary on is kept when selection runs again.
  With two or more pending rounds it is the first pending round with the id of the
  second-to-last one.
\<close>

lemma covered_pending_kept:
  assumes "toolCallRounds (promptContext q) = Some rs" and "2 \<le> length rs"
  shows "\<exists>p info. patchedIndex (roundId (last (butlast rs))) (promptContext q) = Some p
           \<and> getProps sv (withSummary s (roundId (last (butlast rs))) q) = Inr info
           \<and> p < length (allRounds (promptContext (props info)))"
proof -
  let ?c = "promptContext q"
  let ?x = "roundId (last (butlast rs))"
  let ?i = "firstIndex ?x rs"
  let ?H = "concat (map rounds (history ?c))"
  let ?rs' = "rs[?i := (rs ! ?i)\<lparr>summary := Some s\<rparr>]"
  from assms(2) have ne: "butlast rs \<noteq> []"
    by (cases rs) (auto simp: Suc_le_eq)
  from assms(2) have lt: "length rs - 2 < length rs"
    by arith
  have idx: "last (butlast rs) = rs ! (length rs - 2)"
    using ne assms(2) by (simp add: last_conv_nth nth_butlast numeral_2_eq_2)
  from lt have "rs ! (length rs - 2) \<in> set rs"
    by (rule nth_mem)
  then have mem: "?x \<in> roundIds rs"
    unfolding idx roundIds_def by simp
  have le: "?i \<le> length rs - 2"
  proof (rule ccontr)
    assume "\<not> ?i \<le> length rs - 2"
    then have "length rs - 2 < ?i" by simp
    from firstIndex_first [OF this] have "roundId (rs ! (length rs - 2)) \<noteq> ?x" .
    with idx show False by simp
  qed
  have pend: "pendingRounds ?c = rs"
    by (simp add: pendingRounds_def assms(1))
  have pi: "patchedIndex ?x ?c = Some (length ?H + ?i)"
    using mem by (simp add: patchedIndex_def pend)
  have patched: "promptContext (withSummary s ?x q) = ?c\<lparr>toolCallRounds := Some ?rs'\<rparr>"
    using addSummaryToHistory_pending [OF assms(1) mem, of s] by (simp add: withSummary_def)
  obtain nb where nb: "getWorkingNotebook sv (withSummary s ?x q) = Inr nb"
    using getWorkingNotebook_total by blast
  from assms(2) have "0 < length (butlast ?rs')"
    by simp
  then have ne': "butlast ?rs' \<noteq> []"
    by (simp only: length_greater_0_conv not_False_eq_True)
  from assms(2) have long: "1 < length ?rs'"
    by simp
  have sel: "getProps sv (withSummary s ?x q)
               = getProps_result sv (withSummary s ?x q) (butlast ?rs')
                   (isContinuation ?c) (roundId (last (butlast ?rs')))"
    using ne' long by (simp add: getProps_def patched at_last_eq Let_def)
  let ?info = "\<lparr> props = (withSummary s ?x q)\<lparr> workingNotebook := nb,
                   promptContext := (promptContext (withSummary s ?x q))
                     \<lparr> toolCallRounds := Some (butlast ?rs'),
                       isContinuation := isContinuation ?c \<rparr> \<rparr>,
                 summarizedToolCallRoundId = roundId (last (butlast ?rs')) \<rparr>"
  have sel': "getProps sv (withSummary s ?x q) = Inr ?info"
    unfolding sel by (simp add: getProps_result_def nb)
  have "allRounds (promptContext (props ?info)) = ?H @ butlast ?rs'"
    by (simp add: allRounds_def pendingRounds_def patched)
  then have "length (allRounds (promptContext (props ?info))) = length ?H + (length rs - 1)"
    by simp
  with le assms(2) have "length ?H + ?i < length (allRounds (promptContext (props ?info)))"
    by arith
  with pi sel' show ?thesis
    by blast
qed

text \<open>
  On the fallback it is the last round of the last prior turn, when no pending round and
  no other round of the history has its id.
\<close>

lemma covered_last_round_kept:
  assumes "length (pendingRounds (promptContext q)) \<le> 1"
    and "history (promptContext q) \<noteq> []"
    and "rounds (last (history (promptContext q))) \<noteq> []"
    and "distinct (map roundId (allRounds (promptContext q)))"
  shows "\<exists>p info. patchedIndex (roundId (last (rounds (last (history (promptContext q))))))
               (promptContext q) = Some p
           \<and> getProps sv (withSummary s (roundId (last (rounds (last (history (promptContext q)))))) q)
               = Inr info
           \<and> p < length (allRounds (promptContext (props info)))"
proof -
  let ?c = "promptContext q"
  let ?x = "roundId (last (rounds (last (history ?c))))"
  let ?H = "concat (map rounds (history ?c))"
  let ?c' = "promptContext (withSummary s ?x q)"
  let ?H' = "concat (map rounds (history ?c'))"
  let ?strip = "\<lambda>t. t\<lparr>rounds := map (\<lambda>r. r\<lparr>summary := None\<rparr>) (rounds t)\<rparr>"
  have c': "?c' = addSummaryToHistory s ?x ?c"
    by (simp add: withSummary_def)
  from assms(2) have "last (history ?c) \<in> set (history ?c)"
    by simp
  moreover from assms(3) have "last (rounds (last (history ?c))) \<in> set (rounds (last (history ?c)))"
    by simp
  ultimately have "last (rounds (last (history ?c))) \<in> set ?H"
    by auto
  then have inH: "?x \<in> roundIds ?H"
    unfolding roundIds_def by simp
  from assms(4) have "set (map roundId ?H) \<inter> set (map roundId (pendingRounds ?c)) = {}"
    by (simp add: allRounds_def)
  with inH have notpend: "?x \<notin> roundIds (pendingRounds ?c)"
    unfolding roundIds_def by blast
  from inH have "?x \<in> roundIds (allRounds ?c)"
    by (simp add: allRounds_def roundIds_def)
  then have "patchedIndex ?x ?c \<noteq> None"
    by (simp add: patchedIndex_None)
  then obtain p where pi: "patchedIndex ?x ?c = Some p"
    by (cases "patchedIndex ?x ?c") simp_all
  from patchedIndex_Some [OF pi, of s] have
    p: "p < length (allRounds ?c)" and idp: "roundId (allRounds ?c ! p) = ?x"
    and A': "allRounds ?c' = (allRounds ?c)[p := (allRounds ?c ! p)\<lparr>summary := Some s\<rparr>]"
    by (simp_all add: c')
  have pH: "p < length ?H"
  proof (rule ccontr)
    assume "\<not> p < length ?H"
    then have ge: "length ?H \<le> p" by simp
    with p have "p - length ?H < length (pendingRounds ?c)"
      by (simp add: allRounds_def)
    then have "pendingRounds ?c ! (p - length ?H) \<in> set (pendingRounds ?c)"
      by (rule nth_mem)
    moreover from ge have "allRounds ?c ! p = pendingRounds ?c ! (p - length ?H)"
      by (simp add: allRounds_def nth_append)
    ultimately have "roundId (allRounds ?c ! p) \<in> roundIds (pendingRounds ?c)"
      unfolding roundIds_def by simp
    with idp notpend show False by simp
  qed
  from addSummaryToHistory_shape [of s ?x ?c] have
    hist: "map ?strip (history ?c') = map ?strip (history ?c)"
    and pend: "map_option (map (\<lambda>r. r\<lparr>summary := None\<rparr>)) (toolCallRounds ?c')
                 = map_option (map (\<lambda>r. r\<lparr>summary := None\<rparr>)) (toolCallRounds ?c)"
    by (simp_all only: c')
  from arg_cong [OF hist, of length] have lh: "length (history ?c') = length (history ?c)"
    by simp
  with assms(2) have ne': "history ?c' \<noteq> []"
    by auto
  from arg_cong [OF hist, of last] ne' assms(2) have "?strip (last (history ?c')) = ?strip (last (history ?c))"
    by (simp add: last_map)
  from arg_cong [OF this, of "\<lambda>t. length (rounds t)"] have
    "length (rounds (last (history ?c'))) = length (rounds (last (history ?c)))"
    by simp
  with assms(3) have rne': "rounds (last (history ?c')) \<noteq> []"
    by auto
  have lp: "length (pendingRounds ?c') = length (pendingRounds ?c)"
  proof (cases "toolCallRounds ?c")
    case None
    with pend show ?thesis by (simp add: pendingRounds_def)
  next
    case (Some rs)
    with pend obtain rs' where rs': "toolCallRounds ?c' = Some rs'"
      and eq: "map (\<lambda>r. r\<lparr>summary := None\<rparr>) rs' = map (\<lambda>r. r\<lparr>summary := None\<rparr>) rs"
      by (cases "toolCallRounds ?c'") simp_all
    from arg_cong [OF eq, of length] have "length rs' = length rs" by simp
    with Some rs' show ?thesis by (simp add: pendingRounds_def)
  qed
  with assms(1) have short': "length (pendingRounds ?c') \<le> 1"
    by simp
  from getProps_fallback [OF short' ne' rne', of sv] obtain info where
    sel: "getProps sv (withSummary s ?x q) = Inr info"
    and none: "toolCallRounds (promptContext (props info)) = Some []"
    and same: "history (promptContext (props info)) = history ?c'"
    by (elim exE conjE)
  from arg_cong [OF A', of length] have "length (allRounds ?c') = length (allRounds ?c)"
    by simp
  with lp have "length ?H' = length ?H"
    by (simp add: allRounds_def)
  moreover from none same have "allRounds (promptContext (props info)) = ?H'"
    by (simp add: allRounds_def pendingRounds_def)
  ultimately have "p < length (allRounds (promptContext (props info)))"
    using pH by simp
  with pi sel show ?thesis
    by blast
qed

text \<open>
  So, when round ids are distinct and selection succeeds, the round that selection names
  as covered is found by the patcher and is among the rounds selection keeps afterwards.
\<close>

lemma covered_round_kept:
  assumes "getProps sv q = Inr info0"
    and "distinct (map roundId (allRounds (promptContext q)))"
  shows "\<exists>p info. patchedIndex (summarizedToolCallRoundId info0) (promptContext q) = Some p
           \<and> getProps sv (withSummary s (summarizedToolCallRoundId info0) q) = Inr info
           \<and> p < length (allRounds (promptContext (props info)))"
proof (cases "1 < length (pendingRounds (promptContext q))")
  case True
  then obtain rs where rs: "toolCallRounds (promptContext q) = Some rs" and long: "2 \<le> length rs"
    by (cases "toolCallRounds (promptContext q)") (simp_all add: pendingRounds_def)
  from long have ne: "butlast rs \<noteq> []"
    by (cases rs) (auto simp: Suc_le_eq)
  obtain nb where "getProps_result sv q (butlast rs) (isContinuation (promptContext q))
      (roundId (last (butlast rs)))
    = Inr \<lparr> props = q\<lparr> workingNotebook := nb,
                      promptContext := (promptContext q)\<lparr> toolCallRounds := Some (butlast rs),
                        isContinuation := isContinuation (promptContext q) \<rparr> \<rparr>,
           summarizedToolCallRoundId = roundId (last (butlast rs)) \<rparr>"
    using getProps_result_Inr by blast
  moreover from rs long ne have "getProps sv q = getProps_result sv q (butlast rs)
      (isContinuation (promptContext q)) (roundId (last (butlast rs)))"
    by (simp add: getProps_def at_last_eq Let_def)
  ultimately have "summarizedToolCallRoundId info0 = roundId (last (butlast rs))"
    using assms(1) by auto
  with covered_pending_kept [OF rs long, of sv s] show ?thesis
    by simp
next
  case False
  then have short: "length (pendingRounds (promptContext q)) \<le> 1"
    by simp
  then have guard: "\<not> (case toolCallRounds (promptContext q) of None \<Rightarrow> False | Some rs \<Rightarrow> length rs > 1)"
    by (simp add: pendingRounds_def split: option.splits)
  have ne: "history (promptContext q) \<noteq> []"
  proof
    assume "history (promptContext q) = []"
    with guard have "getProps sv q = Inl NothingToSummarize"
      by (simp add: getProps_def Let_def)
    with assms(1) show False by simp
  qed
  have rne: "rounds (last (history (promptContext q))) \<noteq> []"
  proof
    assume "rounds (last (history (promptContext q))) = []"
    with guard ne have "getProps sv q = Inl TypeError"
      by (simp add: getProps_def Let_def at_last_eq)
    with assms(1) show False by simp
  qed
  from getProps_fallback [OF short ne rne, of sv] assms(1) have
    "summarizedToolCallRoundId info0 = roundId (last (rounds (last (history (promptContext q)))))"
    by auto
  with covered_last_round_kept [OF short ne rne assms(2), of sv s] show ?thesis
    by simp
qed

text \<open>
  C5, as the code has it. Let a non-empty summary text \<open>s\<close> be installed on the round with
  id \<open>x\<close> that the patcher finds, at position \<open>p\<close> of the chronological list of all rounds,
  and let selection, run again on the patched context, succeed and keep that round (it is
  not a pending round that selection drops). Then the rounds selection keeps are a prefix of
  all rounds, and the builder run on the selected context shows exactly one summary text,
  the one of the newest kept round \<open>r\<close> that carries a non-empty summary, and shows
  verbatim exactly the kept rounds after \<open>r\<close>, in chronological order. The patched round
  is \<open>r\<close> or lies before it, so it and every round before it are left out. If no kept
  round after the patched one carries a summary, the text shown is \<open>s\<close>.
\<close>

theorem selectAndBuild_after_install:
  assumes "s \<noteq> []"
    and "patchedIndex x (promptContext q) = Some p"
    and "getProps sv (withSummary s x q) = Inr info"
    and "p < length (allRounds (promptContext (props info)))"
  shows "selectAndBuild sv (withSummary s x q) = Inr (render (promptContext (props info)))
    \<and> allRounds (promptContext (props info))
        = take (length (allRounds (promptContext (props info))))
            (allRounds (promptContext (withSummary s x q)))
    \<and> roundId (allRounds (promptContext q) ! p) = x
    \<and> allRounds (promptContext (props info)) ! p
        = (allRounds (promptContext q) ! p)\<lparr>summary := Some s\<rparr>
    \<and> (\<exists>before r after shown.
          allRounds (promptContext (props info)) = before @ [r] @ after
        \<and> p \<le> length before
        \<and> summary r = Some shown \<and> shown \<noteq> []
        \<and> (\<forall>u \<in> set after. \<not> hasSummary u)
        \<and> verbatimRounds (render (promptContext (props info))) = after
        \<and> summaryTexts (render (promptContext (props info))) = [shown]
        \<and> ((\<forall>u \<in> set (drop (Suc p) (allRounds (promptContext (props info)))). \<not> hasSummary u)
             \<longrightarrow> length before = p \<and> shown = s))"
proof -
  let ?A = "allRounds (promptContext q)"
  let ?A' = "allRounds (promptContext (withSummary s x q))"
  let ?S = "allRounds (promptContext (props info))"
  from patchedIndex_Some [OF assms(2), of s] have
    p: "p < length ?A" and idx: "roundId (?A ! p) = x"
    and A': "?A' = ?A[p := (?A ! p)\<lparr>summary := Some s\<rparr>]"
    by (simp_all add: withSummary_def)
  have build: "selectAndBuild sv (withSummary s x q) = Inr (render (promptContext (props info)))"
    by (simp add: selectAndBuild_def assms(3))
  have prefix: "?S = take (length ?S) ?A'"
    by (rule getProps_selected [OF assms(3)])
  from p A' have "?A' ! p = (?A ! p)\<lparr>summary := Some s\<rparr>"
    by simp
  moreover from assms(4) have "take (length ?S) ?A' ! p = ?A' ! p"
    by simp
  ultimately have at_p: "?S ! p = (?A ! p)\<lparr>summary := Some s\<rparr>"
    using prefix by simp
  with assms(1) have "hasSummary (?S ! p)"
    by (simp add: hasSummary_def)
  from render_excludes [OF assms(4) this] obtain before r after shown where
    split: "?S = before @ [r] @ after" and p_le: "p \<le> length before"
    and shown: "summary r = Some shown" "shown \<noteq> []"
    and rest: "\<forall>u \<in> set after. \<not> hasSummary u"
    and vr: "verbatimRounds (render (promptContext (props info))) = after"
    and st: "summaryTexts (render (promptContext (props info))) = [shown]"
    and fin: "(\<forall>u \<in> set (drop (Suc p) ?S). \<not> hasSummary u) \<longrightarrow> length before = p \<and> r = ?S ! p"
    by blast
  have fin': "(\<forall>u \<in> set (drop (Suc p) ?S). \<not> hasSummary u) \<longrightarrow> length before = p \<and> shown = s"
  proof
    assume "\<forall>u \<in> set (drop (Suc p) ?S). \<not> hasSummary u"
    with fin have eq: "length before = p" and "r = ?S ! p" by simp_all
    with at_p have "summary r = Some s" by simp
    with shown(1) eq show "length before = p \<and> shown = s" by simp
  qed
  have "\<exists>before r after shown.
          ?S = before @ [r] @ after
        \<and> p \<le> length before
        \<and> summary r = Some shown \<and> shown \<noteq> []
        \<and> (\<forall>u \<in> set after. \<not> hasSummary u)
        \<and> verbatimRounds (render (promptContext (props info))) = after
        \<and> summaryTexts (render (promptContext (props info))) = [shown]
        \<and> ((\<forall>u \<in> set (drop (Suc p) ?S). \<not> hasSummary u) \<longrightarrow> length before = p \<and> shown = s)"
  proof (intro exI conjI)
    show "?S = before @ [r] @ after" by (rule split)
    show "p \<le> length before" by (rule p_le)
    show "summary r = Some shown" by (rule shown(1))
    show "shown \<noteq> []" by (rule shown(2))
    show "\<forall>u \<in> set after. \<not> hasSummary u" by (rule rest)
    show "verbatimRounds (render (promptContext (props info))) = after" by (rule vr)
    show "summaryTexts (render (promptContext (props info))) = [shown]" by (rule st)
    show "(\<forall>u \<in> set (drop (Suc p) ?S). \<not> hasSummary u) \<longrightarrow> length before = p \<and> shown = s"
      by (rule fin')
  qed
  with build prefix idx at_p show ?thesis
    by (intro conjI)
qed
theorem selectAndBuild_after_install_witness:
  "''S'' \<noteq> []
   \<and> patchedIndex ''p1'' (promptContext priorAndThreePending) = Some 1
   \<and> (\<exists>info. getProps exampleServices (withSummary ''S'' ''p1'' priorAndThreePending) = Inr info
        \<and> 1 < length (allRounds (promptContext (props info)))
        \<and> selectAndBuild exampleServices (withSummary ''S'' ''p1'' priorAndThreePending)
            = Inr (render (promptContext (props info)))
        \<and> allRounds (promptContext (props info))
            = [mkRound ''h1'' [] None, mkRound ''p1'' [] (Some ''S''), mkRound ''p2'' [] None]
        \<and> verbatimRounds (render (promptContext (props info))) = [mkRound ''p2'' [] None]
        \<and> summaryTexts (render (promptContext (props info))) = [''S''])"
proof -
  let ?q = "priorAndThreePending"
  let ?S = "[mkRound ''h1'' [] None, mkRound ''p1'' [] (Some ''S''), mkRound ''p2'' [] None]"
  have s: "''S'' \<noteq> []" by simp
  have idx: "patchedIndex ''p1'' (promptContext ?q) = Some 1"
    by (simp add: patchedIndex_def roundIds_def firstIndex_def pendingRounds_def
        priorAndThreePending_def mkProps_def mkContext_def mkTurn_def mkRound_def)
  have "\<exists>info. getProps exampleServices (withSummary ''S'' ''p1'' ?q) = Inr info
          \<and> allRounds (promptContext (props info)) = ?S"
    by (simp add: getProps_def getProps_result_def getWorkingNotebook_def
        getWorkingNotebook_toolCall_def withSummary_def addSummaryToHistory_def
        allRounds_def pendingRounds_def priorAndThreePending_def mkProps_def mkContext_def
        mkTurn_def mkRound_def)
  then obtain info where
    sel: "getProps exampleServices (withSummary ''S'' ''p1'' ?q) = Inr info"
    and S: "allRounds (promptContext (props info)) = ?S"
    by (elim exE conjE)
  have len: "1 < length (allRounds (promptContext (props info)))"
    by (simp add: S)
  note main = selectAndBuild_after_install [OF s idx sel len]
  from main have build: "selectAndBuild exampleServices (withSummary ''S'' ''p1'' ?q)
      = Inr (render (promptContext (props info)))"
    by (rule conjunct1)
  from main [THEN conjunct2, THEN conjunct2, THEN conjunct2, THEN conjunct2]
  obtain before r after shown where
    split: "allRounds (promptContext (props info)) = before @ [r] @ after"
    and vr: "verbatimRounds (render (promptContext (props info))) = after"
    and st: "summaryTexts (render (promptContext (props info))) = [shown]"
    and fin: "(\<forall>u \<in> set (drop (Suc 1) (allRounds (promptContext (props info)))). \<not> hasSummary u)
                \<longrightarrow> length before = 1 \<and> shown = ''S''"
    by (elim exE conjE)
  have "\<forall>u \<in> set (drop (Suc 1) (allRounds (promptContext (props info)))). \<not> hasSummary u"
    by (simp add: S hasSummary_def mkRound_def)
  with fin have lb: "length before = 1" and sh: "shown = ''S''"
    by simp_all
  have "drop (Suc (length before)) (before @ [r] @ after) = after"
    by simp
  with split lb have "after = drop 2 (allRounds (promptContext (props info)))"
    by (simp add: numeral_2_eq_2)
  then have after: "after = [mkRound ''p2'' [] None]"
    by (simp add: S numeral_2_eq_2)
  show ?thesis
  proof (intro conjI exI [of _ info])
    show "''S'' \<noteq> []" by (rule s)
    show "patchedIndex ''p1'' (promptContext ?q) = Some 1" by (rule idx)
    show "getProps exampleServices (withSummary ''S'' ''p1'' ?q) = Inr info" by (rule sel)
    show "1 < length (allRounds (promptContext (props info)))" by (rule len)
    show "selectAndBuild exampleServices (withSummary ''S'' ''p1'' ?q)
      = Inr (render (promptContext (props info)))" by (rule build)
    show "allRounds (promptContext (props info)) = ?S" by (rule S)
    show "verbatimRounds (render (promptContext (props info))) = [mkRound ''p2'' [] None]"
      using vr after by simp
    show "summaryTexts (render (promptContext (props info))) = [''S'']"
      using st sh by simp
  qed
qed

text \<open>
  C5 as stated fails twice on the pipeline. An empty summary text installed on the first of
  two pending rounds is not a summary for the builder: selection keeps that round, and the
  builder shows it verbatim and shows no summary. And a summary installed on the last of
  two pending rounds is dropped by selection together with its round: the one prior round
  and the first pending round are shown verbatim, and no summary is shown.
\<close>

theorem selectAndBuild_after_install_counterexample:
  "(\<exists>built. selectAndBuild exampleServices (withSummary '''' ''p1''
        (mkProps (mkContext [] (Some [mkRound ''p1'' [] None, mkRound ''p2'' [] None])))) = Inr built
      \<and> verbatimRounds built = [mkRound ''p1'' [] (Some '''')]
      \<and> summaryTexts built = [])
   \<and> (\<exists>built. selectAndBuild exampleServices (withSummary ''S'' ''p2'' priorAndPending) = Inr built
      \<and> verbatimRounds built = [mkRound ''h1'' [] None, mkRound ''p1'' [] None]
      \<and> summaryTexts built = [])"
  by (simp add: selectAndBuild_def getProps_def getProps_result_def getWorkingNotebook_def
      getWorkingNotebook_toolCall_def withSummary_def addSummaryToHistory_def
      render_def summarizedMetadata_def turnToolCallResults_def toolCallResultInNextTurn_def
      verbatimRounds_def summaryTexts_def priorAndPending_def mkProps_def mkContext_def
      mkTurn_def mkRound_def)

section \<open>The working notebook\<close>

lemma find_first:
  "find Q xs = Some x \<longleftrightarrow> (\<exists>ys zs. xs = ys @ [x] @ zs \<and> Q x \<and> (\<forall>y \<in> set ys. \<not> Q y))"
proof
  assume "find Q xs = Some x"
  then obtain i where i: "i < length xs" "Q (xs ! i)" "x = xs ! i" "\<forall>j < i. \<not> Q (xs ! j)"
    by (auto simp: find_Some_iff)
  then have "xs = take i xs @ [x] @ drop (Suc i) xs"
    by (simp add: id_take_nth_drop)
  moreover from i have "\<forall>y \<in> set (take i xs). \<not> Q y"
    by (auto simp: in_set_conv_nth)
  ultimately show "\<exists>ys zs. xs = ys @ [x] @ zs \<and> Q x \<and> (\<forall>y \<in> set ys. \<not> Q y)"
    using i by blast
next
  assume "\<exists>ys zs. xs = ys @ [x] @ zs \<and> Q x \<and> (\<forall>y \<in> set ys. \<not> Q y)"
  then obtain ys zs where "xs = ys @ [x] @ zs" "Q x" "\<forall>y \<in> set ys. \<not> Q y"
    by blast
  then show "find Q xs = Some x"
    by (simp add: find_append_rounds find_None_iff [THEN iffD2])
qed

lemma find_last:
  "find P (rev xs) = Some x \<longleftrightarrow> (\<exists>ys zs. xs = ys @ [x] @ zs \<and> P x \<and> (\<forall>z \<in> set zs. \<not> P z))"
proof
  assume "find P (rev xs) = Some x"
  then obtain ys zs where r: "rev xs = ys @ [x] @ zs" and x: "P x" "\<forall>y \<in> set ys. \<not> P y"
    unfolding find_first by blast
  from arg_cong [OF r, of rev] have "xs = rev zs @ [x] @ rev ys"
    by simp
  with x show "\<exists>ys zs. xs = ys @ [x] @ zs \<and> P x \<and> (\<forall>z \<in> set zs. \<not> P z)"
    by (intro exI [of _ "rev zs"] exI [of _ "rev ys"]) simp
next
  assume "\<exists>ys zs. xs = ys @ [x] @ zs \<and> P x \<and> (\<forall>z \<in> set zs. \<not> P z)"
  then obtain ys zs where "xs = ys @ [x] @ zs" "P x" "\<forall>z \<in> set zs. \<not> P z"
    by blast
  then show "find P (rev xs) = Some x"
    by (simp add: find_append_rounds find_None_iff [THEN iffD2])
qed

lemma getWorkingNotebook_toolCall_iff:
  "getWorkingNotebook_toolCall sv p = Some call \<longleftrightarrow> notebookCall sv p call"
proof
  assume a: "getWorkingNotebook_toolCall sv p = Some call"
  then obtain rs round where rs: "toolCallRounds (promptContext p) = Some rs"
    and round: "find (\<lambda>round. list_ex (isRunNotebookCell sv) (toolCalls round)) (rev rs) = Some round"
    and call: "find (isRunNotebookCell sv) (toolCalls round) = Some call"
    by (auto simp: getWorkingNotebook_toolCall_def Let_def split: option.splits)
  from round obtain older newer where "rs = older @ [round] @ newer"
    "\<forall>q \<in> set newer. \<not> list_ex (isRunNotebookCell sv) (toolCalls q)"
    unfolding find_last by blast
  moreover from call obtain earlier later where "toolCalls round = earlier @ [call] @ later"
    "isRunNotebookCell sv call" "\<forall>k \<in> set earlier. \<not> isRunNotebookCell sv k"
    unfolding find_first by blast
  ultimately show "notebookCall sv p call"
    using rs unfolding notebookCall_def by blast
next
  assume "notebookCall sv p call"
  then obtain older round newer earlier later where
    rs: "toolCallRounds (promptContext p) = Some (older @ [round] @ newer)"
    and newer: "\<forall>q \<in> set newer. \<not> list_ex (isRunNotebookCell sv) (toolCalls q)"
    and calls: "toolCalls round = earlier @ [call] @ later"
    and earlier: "\<forall>k \<in> set earlier. \<not> isRunNotebookCell sv k"
    and call: "isRunNotebookCell sv call"
    unfolding notebookCall_def by blast
  from calls call have "list_ex (isRunNotebookCell sv) (toolCalls round)"
    by (simp add: list_ex_iff)
  with newer have "find (\<lambda>round. list_ex (isRunNotebookCell sv) (toolCalls round))
      (rev (older @ [round] @ newer)) = Some round"
    unfolding find_last by blast
  moreover from calls earlier call have "find (isRunNotebookCell sv) (toolCalls round) = Some call"
    unfolding find_first by blast
  ultimately show "getWorkingNotebook_toolCall sv p = Some call"
    using rs by (simp add: getWorkingNotebook_toolCall_def)
qed

lemma getWorkingNotebook_Some:
  assumes "getWorkingNotebook sv p = Inr (Some doc)"
  shows "\<exists>call args path.
           notebookCall sv p call \<and> arguments call \<noteq> []
         \<and> JSON_parse sv (arguments call) = Inr args
         \<and> get_filePath args = Inr (Some (JString path))
         \<and> resolveFilePath sv path = Inr (Some (uri doc))
         \<and> find (\<lambda>d. uri d = uri doc) (notebookDocuments sv) = Some doc"
proof -
  from assms obtain call where call: "getWorkingNotebook_toolCall sv p = Some call"
    and ne: "arguments call \<noteq> []"
    and body: "getWorkingNotebook_try sv call = Inr (Some (Some doc))"
    by (auto simp: getWorkingNotebook_def split: option.splits if_splits sum.splits)
  from body obtain args path u where
    "JSON_parse sv (arguments call) = Inr args"
    "get_filePath args = Inr (Some (JString path))"
    "resolveFilePath sv path = Inr (Some u)"
    "find (\<lambda>d. uri d = u) (notebookDocuments sv) = Some doc"
    by (auto simp: getWorkingNotebook_try_def split: sum.splits option.splits json.splits)
  moreover from this(4) have "uri doc = u"
    by (auto simp: find_Some_iff)
  ultimately show ?thesis
    using call ne by (auto simp: getWorkingNotebook_toolCall_iff)
qed

lemma getWorkingNotebook_None:
  assumes "getWorkingNotebook_toolCall sv p = None
     \<or> (\<exists>call. getWorkingNotebook_toolCall sv p = Some call
          \<and> (arguments call = []
             \<or> (\<exists>e. JSON_parse sv (arguments call) = Inl e)
             \<or> (\<exists>args. JSON_parse sv (arguments call) = Inr args
                  \<and> ((\<exists>e. get_filePath args = Inl e)
                     \<or> (\<forall>path. get_filePath args \<noteq> Inr (Some (JString path)))
                     \<or> (\<exists>path. get_filePath args = Inr (Some (JString path))
                          \<and> ((\<exists>e. resolveFilePath sv path = Inl e)
                             \<or> resolveFilePath sv path = Inr None
                             \<or> (\<exists>u. resolveFilePath sv path = Inr (Some u)
                                  \<and> (\<forall>d \<in> set (notebookDocuments sv). uri d \<noteq> u))))))))"
  shows "getWorkingNotebook sv p = Inr None"
  using assms
  by (auto simp: getWorkingNotebook_def getWorkingNotebook_try_def find_None_iff
      split: option.splits sum.splits json.splits)
lemma getProps_workingNotebook:
  assumes "getProps sv p = Inr info" and "getWorkingNotebook sv p = Inr res"
  shows "workingNotebook (props info) = res"
  using assms
  by (auto simp: getProps_def getProps_result_def Let_def split: if_splits option.splits)

text \<open>
  C9, as the code has it. \<open>getWorkingNotebook\<close> never throws, and a successful \<open>getProps\<close>
  hands its result on as the working notebook. The call it reads is the first
  notebook-execution call of the newest pending round of the incoming props that has one
  (the round that selection drops included). The result is a document exactly when that call
  has non-empty arguments that parse, with a string \<open>filePath\<close> that resolves to the uri of an
  open notebook, and it is then the first open notebook with that uri. No such call, empty
  or malformed arguments, a missing or non-string path, a path that does not resolve, and no
  open notebook with the resolved uri each give no attachment.
\<close>

theorem getWorkingNotebook_best_effort:
  "\<exists>res. getWorkingNotebook sv p = Inr res
     \<and> (\<forall>info. getProps sv p = Inr info \<longrightarrow> workingNotebook (props info) = res)
     \<and> (\<forall>doc. res = Some doc \<longrightarrow>
          (\<exists>call args path.
             notebookCall sv p call \<and> arguments call \<noteq> []
           \<and> JSON_parse sv (arguments call) = Inr args
           \<and> get_filePath args = Inr (Some (JString path))
           \<and> resolveFilePath sv path = Inr (Some (uri doc))
           \<and> find (\<lambda>d. uri d = uri doc) (notebookDocuments sv) = Some doc))
     \<and> (\<forall>call args path u doc.
          notebookCall sv p call \<and> arguments call \<noteq> []
          \<and> JSON_parse sv (arguments call) = Inr args
          \<and> get_filePath args = Inr (Some (JString path))
          \<and> resolveFilePath sv path = Inr (Some u)
          \<and> find (\<lambda>d. uri d = u) (notebookDocuments sv) = Some doc \<longrightarrow> res = Some doc)
     \<and> ((\<forall>call. \<not> notebookCall sv p call) \<longrightarrow> res = None)
     \<and> (\<forall>call. notebookCall sv p call
          \<and> (arguments call = [] \<or> (\<exists>e. JSON_parse sv (arguments call) = Inl e)) \<longrightarrow> res = None)
     \<and> (\<forall>call args. notebookCall sv p call \<and> JSON_parse sv (arguments call) = Inr args
          \<and> (\<forall>path. get_filePath args \<noteq> Inr (Some (JString path))) \<longrightarrow> res = None)
     \<and> (\<forall>call args path. notebookCall sv p call \<and> JSON_parse sv (arguments call) = Inr args
          \<and> get_filePath args = Inr (Some (JString path))
          \<and> ((\<exists>e. resolveFilePath sv path = Inl e) \<or> resolveFilePath sv path = Inr None
             \<or> (\<exists>u. resolveFilePath sv path = Inr (Some u)
                  \<and> (\<forall>d \<in> set (notebookDocuments sv). uri d \<noteq> u))) \<longrightarrow> res = None)"
proof -
  obtain res where res: "getWorkingNotebook sv p = Inr res"
    using getWorkingNotebook_total by blast
  have 1: "\<forall>info. getProps sv p = Inr info \<longrightarrow> workingNotebook (props info) = res"
    using getProps_workingNotebook [OF _ res] by blast
  have 2: "\<forall>doc. res = Some doc \<longrightarrow>
          (\<exists>call args path.
             notebookCall sv p call \<and> arguments call \<noteq> []
           \<and> JSON_parse sv (arguments call) = Inr args
           \<and> get_filePath args = Inr (Some (JString path))
           \<and> resolveFilePath sv path = Inr (Some (uri doc))
           \<and> find (\<lambda>d. uri d = uri doc) (notebookDocuments sv) = Some doc)"
    using getWorkingNotebook_Some [of sv p] res by blast
  have 3: "\<forall>call args path u doc.
          notebookCall sv p call \<and> arguments call \<noteq> []
          \<and> JSON_parse sv (arguments call) = Inr args
          \<and> get_filePath args = Inr (Some (JString path))
          \<and> resolveFilePath sv path = Inr (Some u)
          \<and> find (\<lambda>d. uri d = u) (notebookDocuments sv) = Some doc \<longrightarrow> res = Some doc"
  proof (intro allI impI)
    fix call args path u doc
    assume a: "notebookCall sv p call \<and> arguments call \<noteq> []
          \<and> JSON_parse sv (arguments call) = Inr args
          \<and> get_filePath args = Inr (Some (JString path))
          \<and> resolveFilePath sv path = Inr (Some u)
          \<and> find (\<lambda>d. uri d = u) (notebookDocuments sv) = Some doc"
    then have "getWorkingNotebook_toolCall sv p = Some call"
      by (simp add: getWorkingNotebook_toolCall_iff)
    with a have "getWorkingNotebook sv p = Inr (Some doc)"
      by (simp add: getWorkingNotebook_def getWorkingNotebook_try_def)
    with res show "res = Some doc" by simp
  qed
  have 4: "(\<forall>call. \<not> notebookCall sv p call) \<longrightarrow> res = None"
  proof
    assume "\<forall>call. \<not> notebookCall sv p call"
    then have "getWorkingNotebook_toolCall sv p = None"
      using getWorkingNotebook_toolCall_iff [of sv p]
      by (cases "getWorkingNotebook_toolCall sv p") auto
    with getWorkingNotebook_None [of sv p] res show "res = None" by simp
  qed
  have 5: "\<forall>call. notebookCall sv p call
          \<and> (arguments call = [] \<or> (\<exists>e. JSON_parse sv (arguments call) = Inl e)) \<longrightarrow> res = None"
  proof (intro allI impI)
    fix call
    assume a: "notebookCall sv p call
          \<and> (arguments call = [] \<or> (\<exists>e. JSON_parse sv (arguments call) = Inl e))"
    then have "getWorkingNotebook_toolCall sv p = Some call"
      by (simp add: getWorkingNotebook_toolCall_iff)
    with a have "getWorkingNotebook sv p = Inr None"
      by (intro getWorkingNotebook_None) blast
    with res show "res = None" by simp
  qed
  have 6: "\<forall>call args. notebookCall sv p call \<and> JSON_parse sv (arguments call) = Inr args
          \<and> (\<forall>path. get_filePath args \<noteq> Inr (Some (JString path))) \<longrightarrow> res = None"
  proof (intro allI impI)
    fix call args
    assume a: "notebookCall sv p call \<and> JSON_parse sv (arguments call) = Inr args
          \<and> (\<forall>path. get_filePath args \<noteq> Inr (Some (JString path)))"
    then have "getWorkingNotebook_toolCall sv p = Some call"
      by (simp add: getWorkingNotebook_toolCall_iff)
    with a have "getWorkingNotebook sv p = Inr None"
      by (intro getWorkingNotebook_None) blast
    with res show "res = None" by simp
  qed
  have 7: "\<forall>call args path. notebookCall sv p call \<and> JSON_parse sv (arguments call) = Inr args
          \<and> get_filePath args = Inr (Some (JString path))
          \<and> ((\<exists>e. resolveFilePath sv path = Inl e) \<or> resolveFilePath sv path = Inr None
             \<or> (\<exists>u. resolveFilePath sv path = Inr (Some u)
                  \<and> (\<forall>d \<in> set (notebookDocuments sv). uri d \<noteq> u))) \<longrightarrow> res = None"
  proof (intro allI impI)
    fix call args path
    assume a: "notebookCall sv p call \<and> JSON_parse sv (arguments call) = Inr args
          \<and> get_filePath args = Inr (Some (JString path))
          \<and> ((\<exists>e. resolveFilePath sv path = Inl e) \<or> resolveFilePath sv path = Inr None
             \<or> (\<exists>u. resolveFilePath sv path = Inr (Some u)
                  \<and> (\<forall>d \<in> set (notebookDocuments sv). uri d \<noteq> u)))"
    then have "getWorkingNotebook_toolCall sv p = Some call"
      by (simp add: getWorkingNotebook_toolCall_iff)
    with a have "getWorkingNotebook sv p = Inr None"
      by (intro getWorkingNotebook_None) blast
    with res show "res = None" by simp
  qed
  from res 1 2 3 4 5 6 7 show ?thesis by blast
qed
theorem getWorkingNotebook_best_effort_witness:
  "getWorkingNotebook exampleServices notebookProps = Inr (Some (openNotebook ''c.ipynb''))"
proof -
  have call: "notebookCall exampleServices notebookProps (runCell ''c.ipynb'')"
    unfolding notebookCall_def
    by (intro exI [of _ "[mkRound ''p1'' [runCell ''a.ipynb'', runCell ''b.ipynb''] None]"]
              exI [of _ "mkRound ''p2'' [runCell ''c.ipynb'', runCell ''d.ipynb''] None"]
              exI [of _ "[]"] exI [of _ "[runCell ''d.ipynb'']"])
       (simp add: notebookProps_def mkProps_def mkContext_def mkRound_def runCell_def
          isRunNotebookCell_def exampleServices_def)
  have args: "arguments (runCell ''c.ipynb'') \<noteq> []"
    by (simp add: runCell_def filePathArgs_def)
  have parse: "JSON_parse exampleServices (arguments (runCell ''c.ipynb''))
                 = Inr (JObject [(''filePath'', JString ''c.ipynb'')])"
    by (simp add: exampleServices_def exampleParse_def runCell_def filePathArgs_def)
  have path: "get_filePath (JObject [(''filePath'', JString ''c.ipynb'')]) = Inr (Some (JString ''c.ipynb''))"
    by simp
  have resolve: "resolveFilePath exampleServices ''c.ipynb'' = Inr (Some ''file:///c.ipynb'')"
    by (simp add: exampleServices_def)
  have doc: "find (\<lambda>d. uri d = ''file:///c.ipynb'') (notebookDocuments exampleServices)
               = Some (openNotebook ''c.ipynb'')"
    by (simp add: exampleServices_def openNotebook_def)
  from getWorkingNotebook_best_effort [of exampleServices notebookProps] obtain res where
    res: "getWorkingNotebook exampleServices notebookProps = Inr res"
    and found: "\<forall>call args path u doc.
          notebookCall exampleServices notebookProps call \<and> arguments call \<noteq> []
          \<and> JSON_parse exampleServices (arguments call) = Inr args
          \<and> get_filePath args = Inr (Some (JString path))
          \<and> resolveFilePath exampleServices path = Inr (Some u)
          \<and> find (\<lambda>d. uri d = u) (notebookDocuments exampleServices) = Some doc \<longrightarrow> res = Some doc"
    by (elim exE conjE) blast
  from found call args parse path resolve doc have "res = Some (openNotebook ''c.ipynb'')"
    by blast
  with res show ?thesis by simp
qed

text \<open>
  C9 as stated fails: the rounds searched are the pending rounds of the incoming props, not
  the selected ones, and in the round found the first matching call is read, not the most
  recent one. With two pending rounds whose calls run the notebooks a, b and c, d, selection
  keeps the first round only, whose most recent call runs b; the most recent call of all
  runs d; the notebook attached is c.
\<close>

theorem getWorkingNotebook_selected_counterexample:
  "getProps exampleServices notebookProps =
     Inr \<lparr> props = notebookProps
             \<lparr> workingNotebook := Some (openNotebook ''c.ipynb''),
               promptContext := (promptContext notebookProps)
                 \<lparr> toolCallRounds := Some [mkRound ''p1'' [runCell ''a.ipynb'', runCell ''b.ipynb''] None],
                   isContinuation := False \<rparr> \<rparr>,
           summarizedToolCallRoundId = ''p1'' \<rparr>
   \<and> mostRecentNotebookCall_spec exampleServices
        [mkRound ''p1'' [runCell ''a.ipynb'', runCell ''b.ipynb''] None] = Some (runCell ''b.ipynb'')
   \<and> mostRecentNotebookCall_spec exampleServices (pendingRounds (promptContext notebookProps))
        = Some (runCell ''d.ipynb'')
   \<and> resolveFilePath exampleServices ''b.ipynb'' = Inr (Some (uri (openNotebook ''b.ipynb'')))
   \<and> resolveFilePath exampleServices ''d.ipynb'' = Inr (Some (uri (openNotebook ''d.ipynb'')))
   \<and> uri (openNotebook ''c.ipynb'') \<noteq> uri (openNotebook ''b.ipynb'')
   \<and> uri (openNotebook ''c.ipynb'') \<noteq> uri (openNotebook ''d.ipynb'')"
  by (simp add: getProps_def getProps_result_def getWorkingNotebook_def
      getWorkingNotebook_toolCall_def getWorkingNotebook_try_def isRunNotebookCell_def
      mostRecentNotebookCall_spec_def pendingRounds_def notebookProps_def openNotebook_def
      mkProps_def mkContext_def mkRound_def runCell_def filePathArgs_def
      exampleServices_def exampleParse_def)

section \<open>Telemetry\<close>

lemma findIndex_takeWhile:
  "\<exists>x \<in> set xs. P x \<Longrightarrow> findIndex P xs = int (length (takeWhile (\<lambda>x. \<not> P x) xs))"
proof (induction xs)
  case Nil
  then show ?case by simp
next
  case (Cons x xs)
  show ?case
  proof (cases "P x")
    case True
    then show ?thesis by simp
  next
    case False
    with Cons.prems have "\<exists>x \<in> set xs. P x" by simp
    from Cons.IH [OF this] False show ?thesis by (simp add: Let_def)
  qed
qed

text \<open>When a pending round carries a summary, the code counts the rounds after the newest
  such round.\<close>

lemma numRoundsSinceLastSummarization_pending:
  assumes "\<exists>r \<in> set (pendingRounds ctx). hasSummary r"
  shows "numRoundsSinceLastSummarization ctx = roundsSinceLastSummarization_spec ctx"
proof -
  let ?P = "\<lambda>round. truthy (summary round)"
  from assms have ex: "\<exists>r \<in> set (rev (pendingRounds ctx)). ?P r"
    by (simp add: hasSummary_def)
  have n: "findIndex ?P (rev (pendingRounds ctx))
            = int (length (takeWhile (\<lambda>r. \<not> ?P r) (rev (pendingRounds ctx))))"
    by (rule findIndex_takeWhile [OF ex])
  then have "findIndex ?P (rev (pendingRounds ctx)) \<noteq> - 1"
    by simp
  with n have "numRoundsSinceLastSummarization ctx
       = int (length (takeWhile (\<lambda>r. \<not> ?P r) (rev (pendingRounds ctx))))"
    by (simp add: numRoundsSinceLastSummarization_def pendingRounds_def Let_def)
  moreover from assms have "takeWhile (\<lambda>r. \<not> hasSummary r) (rev (allRounds ctx))
       = takeWhile (\<lambda>r. \<not> hasSummary r) (rev (pendingRounds ctx))"
    by (auto simp: allRounds_def takeWhile_append_rounds)
  ultimately show ?thesis
    by (simp add: roundsSinceLastSummarization_spec_def hasSummary_def)
qed

text \<open>
  C8. The measurement \<^verbatim>\<open>numRoundsSinceLastSummarization\<close> is meant to be the number of
  rounds after the newest round that carries a summary. The scan of the persisted turns
  leaves only its inner loop at a summarized round and goes on with the older turns, so a
  second summarized turn overwrites the count: with two turns \<open>[a*, b]\<close> and \<open>[c*, d]\<close>
  (\<open>*\<close> summarized) and no pending round, one round follows the newest summary and the
  code reports two.
\<close>

theorem numRoundsSinceLastSummarization_two_summaries:
  "numRoundsSinceLastSummarization twiceSummarized = 2
   \<and> roundsSinceLastSummarization_spec twiceSummarized = 1
   \<and> evNumRoundsSinceLastSummarization
       (sendSummarizationTelemetry (mkProps twiceSummarized) ''success'' ''req-1'' ''model-1'' None) = 2"
  by (simp add: numRoundsSinceLastSummarization_def numRoundsInCurrentTurn_def
      roundsSinceLastSummarization_spec_def sendSummarizationTelemetry_def allRounds_def
      pendingRounds_def hasSummary_def twiceSummarized_def mkProps_def mkContext_def mkTurn_def
      mkRound_def)

end
